theory Spec2Isabelle
  imports Main "HOL-Library.Sublist"
begin

section \<open>Exceptions (exceptions.py)\<close>

text \<open>
  The exception classes of \<^verbatim>\<open>exceptions.py\<close>, as values.  \<^verbatim>\<open>ParsingError\<close>,
  \<^verbatim>\<open>MessageParsingError\<close> and \<^verbatim>\<open>ParameterArgumentParsingError\<close> carry the
  message they are raised with (the name of a production rule); the last two are
  subclasses of the first, \<^verbatim>\<open>ConsumptionError\<close> is not.  \<^verbatim>\<open>TypeError\<close> and
  \<^verbatim>\<open>UnboundLocalError\<close> are the built-in exceptions that the interpreter raises
  when a string is concatenated with a non-string, \<^verbatim>\<open>None\<close> is subscripted, or
  a local variable is read before it was assigned; \<^verbatim>\<open>OSError\<close> is what
  \<^verbatim>\<open>open\<close> raises for a file that cannot be read.
\<close>

datatype exn =
    ConsumptionError
  | ParsingError string
  | MessageParsingError string
  | ParameterArgumentParsingError string
  | EarlyTerminationError
  | SocketError
  | SMTPBreakOfProtocolError
  | TypeError
  | UnboundLocalError
  | OSError

text \<open>
  \<^verbatim>\<open>except ParsingError as e\<close> catches the three parsing classes; \<open>as_ParsingError\<close>
  returns \<^verbatim>\<open>str(e)\<close> for them and \<open>None\<close> for every exception the clause lets
  through.
\<close>

fun as_ParsingError :: "exn \<Rightarrow> string option" where
  "as_ParsingError (ParsingError m) = Some m"
| "as_ParsingError (MessageParsingError m) = Some m"
| "as_ParsingError (ParameterArgumentParsingError m) = Some m"
| "as_ParsingError _ = None"


section \<open>The cursor and the grammar (parse.py)\<close>

subsection \<open>Characters and the regular expressions handed to \<open>consume\<close>\<close>

text \<open>
  A Python string is modelled as a \<^typ>\<open>string\<close>.  The character classes are the
  ones written in the patterns of \<^verbatim>\<open>parse.py\<close>; ranges compare code points.
\<close>

definition SP :: char where "SP = CHR '' ''"
definition TAB :: char where "TAB = CHR 0x09"
definition LF :: char where "LF = CHR 0x0A"

definition is_SP :: "char \<Rightarrow> bool" where
  \<comment> \<open>the class \<^verbatim>\<open>[ \t]\<close>\<close>
  "is_SP c \<longleftrightarrow> c = SP \<or> c = TAB"

definition is_letter :: "char \<Rightarrow> bool" where
  \<comment> \<open>the class \<^verbatim>\<open>[A-Za-z]\<close>\<close>
  "is_letter c \<longleftrightarrow>
     (let n = (of_char c :: nat) in (65 \<le> n \<and> n \<le> 90) \<or> (97 \<le> n \<and> n \<le> 122))"

definition is_let_dig :: "char \<Rightarrow> bool" where
  \<comment> \<open>the class \<^verbatim>\<open>[A-Za-z0-9]\<close>\<close>
  "is_let_dig c \<longleftrightarrow>
     is_letter c \<or> (let n = (of_char c :: nat) in 48 \<le> n \<and> n \<le> 57)"

definition special_or_space :: "char list" where
  \<comment> \<open>the characters listed in the negated class of \<^verbatim>\<open>parse_string\<close>:
      \<^verbatim>\<open>< > ( ) [ ] \ . , ; : @ "\<close>, space, tab and newline\<close>
  "special_or_space =
     ''<>()[]'' @ [CHR 0x5C] @ ''.,;:@'' @ [CHR 0x22] @ [SP, TAB, LF]"

definition is_string_char :: "char \<Rightarrow> bool" where
  "is_string_char c \<longleftrightarrow> c \<notin> set special_or_space"

definition is_text_char :: "char \<Rightarrow> bool" where
  \<comment> \<open>the class \<^verbatim>\<open>[ -~]\<close>\<close>
  "is_text_char c \<longleftrightarrow> (let n = (of_char c :: nat) in 32 \<le> n \<and> n \<le> 126)"

text \<open>
  A pattern is modelled by what \<^verbatim>\<open>re.match\<close> computes for it: the length of the
  match anchored at the start of the text, or \<open>None\<close>.  Only the patterns that
  occur in \<^verbatim>\<open>parse.py\<close> are needed: a literal, a greedy \<^verbatim>\<open>[..]+\<close>, a greedy
  \<^verbatim>\<open>[..]*\<close>, and the domain pattern.
\<close>

type_synonym regexp = "string \<Rightarrow> nat option"

definition re_lit :: "string \<Rightarrow> regexp" where
  "re_lit s rs = (if prefix s rs then Some (length s) else None)"

definition re_plus :: "(char \<Rightarrow> bool) \<Rightarrow> regexp" where
  "re_plus cls rs =
     (let n = length (takeWhile cls rs) in if n = 0 then None else Some n)"

definition re_star :: "(char \<Rightarrow> bool) \<Rightarrow> regexp" where
  "re_star cls rs = Some (length (takeWhile cls rs))"

definition re_element :: regexp where
  \<comment> \<open>\<^verbatim>\<open>[A-Za-z][A-Za-z0-9]*\<close>\<close>
  "re_element rs =
     (case rs of
        [] \<Rightarrow> None
      | c # cs \<Rightarrow> if is_letter c then Some (Suc (length (takeWhile is_let_dig cs))) else None)"

text \<open>
  The starred group \<^verbatim>\<open>(\.([A-Za-z][A-Za-z0-9]*))*\<close>: one more round is taken as
  long as a dot and an element follow; nothing follows the star in the pattern, so
  the greedy choice is final.
\<close>

fun re_dot_elements :: "string \<Rightarrow> nat" where
  "re_dot_elements [] = 0"
| "re_dot_elements (c # cs) =
     (if c = CHR ''.'' then
        (case re_element cs of
           None \<Rightarrow> 0
         | Some n \<Rightarrow> Suc n + re_dot_elements (drop n cs))
      else 0)"

definition re_domain :: regexp where
  \<comment> \<open>\<^verbatim>\<open>([A-Za-z][A-Za-z0-9]*)(\.([A-Za-z][A-Za-z0-9]*))*\<close>\<close>
  "re_domain rs =
     (case re_element rs of
        None \<Rightarrow> None
      | Some n \<Rightarrow> Some (n + re_dot_elements (drop n rs)))"

subsection \<open>\<open>RemainingString\<close> and \<open>consume\<close>\<close>

text \<open>
  A \<^verbatim>\<open>RemainingString\<close> wraps the unparsed rest of a string; the parsing
  functions mutate it.  Here each of them takes the rest and returns the new rest,
  or the exception it raises.
\<close>

definition is_empty :: "string \<Rightarrow> bool" where
  "is_empty rs \<longleftrightarrow> rs = []"

definition get_first_char :: "string \<Rightarrow> string" where
  "get_first_char rs = (if is_empty rs then [] else [hd rs])"

definition has_further_chars :: "string \<Rightarrow> bool" where
  "has_further_chars rs \<longleftrightarrow> rs \<noteq> []"

definition consume :: "regexp \<Rightarrow> string \<Rightarrow> exn + string" where
  "consume regexp rs =
     (case regexp rs of
        None \<Rightarrow> Inl ConsumptionError
      | Some n \<Rightarrow> Inr (drop n rs))"

text \<open>Statements in sequence: the first exception ends the sequence.\<close>

fun parse_seq :: "(string \<Rightarrow> exn + string) list \<Rightarrow> string \<Rightarrow> exn + string" where
  "parse_seq [] rs = Inr rs"
| "parse_seq (p # ps) rs =
     (case p rs of Inl e \<Rightarrow> Inl e | Inr rs' \<Rightarrow> parse_seq ps rs')"

text \<open>
  \<^verbatim>\<open>try: consume(pattern, rs)  except ConsumptionError: raise ParsingError(name)\<close>
\<close>

definition consume_or :: "string \<Rightarrow> regexp \<Rightarrow> string \<Rightarrow> exn + string" where
  "consume_or name regexp rs =
     (case consume regexp rs of
        Inl ConsumptionError \<Rightarrow> Inl (ParsingError name)
      | Inl e \<Rightarrow> Inl e
      | Inr rs' \<Rightarrow> Inr rs')"

subsection \<open>Lexical productions\<close>

definition parse_whitespace :: "string \<Rightarrow> exn + string" where
  "parse_whitespace = consume_or ''whitespace'' (re_plus is_SP)"

definition parse_nullspace :: "string \<Rightarrow> exn + string" where
  "parse_nullspace = consume_or ''nullspace'' (re_star is_SP)"

definition parse_CRLF :: "string \<Rightarrow> exn + string" where
  "parse_CRLF = consume_or ''CRLF'' (re_lit [LF])"

definition parse_domain :: "string \<Rightarrow> exn + string" where
  "parse_domain = consume_or ''domain'' re_domain"

definition parse_string :: "string \<Rightarrow> exn + string" where
  "parse_string = consume_or ''string'' (re_plus is_string_char)"

definition parse_local_part :: "string \<Rightarrow> exn + string" where
  "parse_local_part = parse_string"

definition parse_arbitrary_text :: "string \<Rightarrow> exn + string" where
  "parse_arbitrary_text = consume_or ''arbitrary-text'' (re_plus is_text_char)"

definition parse_mailbox :: "string \<Rightarrow> exn + string" where
  "parse_mailbox =
     parse_seq [parse_local_part, consume_or ''mailbox'' (re_lit ''@''), parse_domain]"

definition parse_path :: "string \<Rightarrow> exn + string" where
  "parse_path =
     parse_seq [consume_or ''path'' (re_lit ''<''), parse_mailbox,
                consume_or ''path'' (re_lit ''>'')]"

definition parse_reverse_path :: "string \<Rightarrow> exn + string" where
  "parse_reverse_path = parse_path"

definition parse_forward_path :: "string \<Rightarrow> exn + string" where
  "parse_forward_path = parse_path"

subsection \<open>Client commands\<close>

text \<open>
  The look-ahead test of \<^verbatim>\<open>parse_helo_msg\<close>, \<^verbatim>\<open>parse_data_cmd\<close> and
  \<^verbatim>\<open>parse_quit_cmd\<close>: nothing, a space, a tab or a newline follows the keyword.
\<close>

definition keyword_ends :: "string \<Rightarrow> bool" where
  "keyword_ends rs \<longleftrightarrow>
     is_empty rs \<or> get_first_char rs = [SP] \<or> get_first_char rs = [TAB]
       \<or> get_first_char rs = [LF]"

text \<open>
  \<^verbatim>\<open>try: ...  except ParsingError as e: raise ParameterArgumentParsingError(str(e))\<close>
\<close>

definition as_argument_error :: "exn + string \<Rightarrow> exn + string" where
  "as_argument_error r =
     (case r of
        Inr rs \<Rightarrow> Inr rs
      | Inl e \<Rightarrow>
          (case as_ParsingError e of
             Some m \<Rightarrow> Inl (ParameterArgumentParsingError m)
           | None \<Rightarrow> Inl e))"

text \<open>
  \<^verbatim>\<open>try: ...  except ConsumptionError: raise MessageParsingError(name)
  except ParsingError as e: raise MessageParsingError(str(e))\<close>
\<close>

definition as_message_error :: "string \<Rightarrow> exn + string \<Rightarrow> exn + string" where
  "as_message_error name r =
     (case r of
        Inr rs \<Rightarrow> Inr rs
      | Inl ConsumptionError \<Rightarrow> Inl (MessageParsingError name)
      | Inl e \<Rightarrow>
          (case as_ParsingError e of
             Some m \<Rightarrow> Inl (MessageParsingError m)
           | None \<Rightarrow> Inl e))"

definition parse_helo_msg :: "string \<Rightarrow> exn + string" where
  "parse_helo_msg rs =
     (case consume (re_lit ''HELO'') rs of
        Inl ConsumptionError \<Rightarrow> Inl (MessageParsingError ''helo-msg'')
      | Inl e \<Rightarrow> Inl e
      | Inr rs1 \<Rightarrow>
          if keyword_ends rs1 then
            as_argument_error
              (parse_seq [parse_whitespace, parse_arbitrary_text, parse_nullspace,
                          parse_CRLF] rs1)
          else Inl (MessageParsingError ''helo-msg''))"

definition parse_mail_from_cmd :: "string \<Rightarrow> exn + string" where
  "parse_mail_from_cmd rs =
     (case as_message_error ''mail-from-cmd''
             (parse_seq [consume (re_lit ''MAIL''), parse_whitespace,
                         consume (re_lit ''FROM:'')] rs) of
        Inl e \<Rightarrow> Inl e
      | Inr rs1 \<Rightarrow>
          as_argument_error
            (parse_seq [parse_nullspace, parse_reverse_path, parse_nullspace,
                        parse_CRLF] rs1))"

definition parse_rcpt_to_cmd :: "string \<Rightarrow> exn + string" where
  "parse_rcpt_to_cmd rs =
     (case as_message_error ''rcpt-to-cmd''
             (parse_seq [consume (re_lit ''RCPT''), parse_whitespace,
                         consume (re_lit ''TO:'')] rs) of
        Inl e \<Rightarrow> Inl e
      | Inr rs1 \<Rightarrow>
          as_argument_error
            (parse_seq [parse_nullspace, parse_forward_path, parse_nullspace,
                        parse_CRLF] rs1))"

definition parse_data_cmd :: "string \<Rightarrow> exn + string" where
  "parse_data_cmd rs =
     (case consume (re_lit ''DATA'') rs of
        Inl ConsumptionError \<Rightarrow> Inl (MessageParsingError ''data-cmd'')
      | Inl e \<Rightarrow> Inl e
      | Inr rs1 \<Rightarrow>
          if keyword_ends rs1 then
            as_argument_error (parse_seq [parse_nullspace, parse_CRLF] rs1)
          else Inl (MessageParsingError ''data-cmd''))"

definition parse_quit_cmd :: "string \<Rightarrow> exn + string" where
  "parse_quit_cmd rs =
     (case consume (re_lit ''QUIT'') rs of
        Inl ConsumptionError \<Rightarrow> Inl (MessageParsingError ''quit-cmd'')
      | Inl e \<Rightarrow> Inl e
      | Inr rs1 \<Rightarrow>
          if keyword_ends rs1 then
            as_argument_error (parse_seq [parse_nullspace, parse_CRLF] rs1)
          else Inl (MessageParsingError ''quit-cmd''))"


section \<open>The command classifier (message.py)\<close>

datatype msg_type = UNRECOGNIZED | HELO | MAIL_FROM | RCPT_TO | DATA | QUIT

record message =
  msg_type :: msg_type
  param_arg_error :: bool

text \<open>
  One block of \<^verbatim>\<open>Message.__init__\<close>: the parser runs on a fresh
  \<^verbatim>\<open>RemainingString\<close>; a \<^verbatim>\<open>MessageParsingError\<close> falls through to the next
  block, a \<^verbatim>\<open>ParameterArgumentParsingError\<close> and a success both decide the
  type; any other exception is not caught.
\<close>

definition attempt ::
  "(string \<Rightarrow> exn + string) \<Rightarrow> msg_type \<Rightarrow> string \<Rightarrow> exn + message \<Rightarrow> exn + message"
where
  "attempt parse t ms otherwise =
     (case parse ms of
        Inl (MessageParsingError _) \<Rightarrow> otherwise
      | Inl (ParameterArgumentParsingError _) \<Rightarrow>
          Inr \<lparr>msg_type = t, param_arg_error = True\<rparr>
      | Inl e \<Rightarrow> Inl e
      | Inr _ \<Rightarrow> Inr \<lparr>msg_type = t, param_arg_error = False\<rparr>)"

definition Message :: "string \<Rightarrow> exn + message" where
  "Message ms =
     attempt parse_helo_msg HELO ms
       (attempt parse_mail_from_cmd MAIL_FROM ms
          (attempt parse_rcpt_to_cmd RCPT_TO ms
             (attempt parse_data_cmd DATA ms
                (attempt parse_quit_cmd QUIT ms
                   (Inr \<lparr>msg_type = UNRECOGNIZED, param_arg_error = False\<rparr>)))))"

definition is_recognized :: "message \<Rightarrow> bool" where
  "is_recognized m \<longleftrightarrow> msg_type m \<noteq> UNRECOGNIZED"

definition is_helo_msg :: "message \<Rightarrow> bool" where
  "is_helo_msg m \<longleftrightarrow> msg_type m = HELO"

definition is_mail_from_cmd :: "message \<Rightarrow> bool" where
  "is_mail_from_cmd m \<longleftrightarrow> msg_type m = MAIL_FROM"

definition is_rcpt_to_cmd :: "message \<Rightarrow> bool" where
  "is_rcpt_to_cmd m \<longleftrightarrow> msg_type m = RCPT_TO"

definition is_data_cmd :: "message \<Rightarrow> bool" where
  "is_data_cmd m \<longleftrightarrow> msg_type m = DATA"

definition is_quit_cmd :: "message \<Rightarrow> bool" where
  "is_quit_cmd m \<longleftrightarrow> msg_type m = QUIT"

definition has_valid_params_args :: "message \<Rightarrow> bool" where
  "has_valid_params_args m \<longleftrightarrow> \<not> param_arg_error m"


section \<open>Mail transactions (email.py)\<close>

record email =
  reverse_path :: string
  forward_paths :: "string list"
  subject :: string
  message_lines :: "string list"
  attachment_filename :: string

definition Email :: email where
  "Email = \<lparr>reverse_path = [], forward_paths = [], subject = [], message_lines = [],
             attachment_filename = []\<rparr>"

definition EOMD_SEQ :: string where
  "EOMD_SEQ = CHR ''.'' # [LF]"

definition set_reverse_path :: "string \<Rightarrow> email \<Rightarrow> email" where
  "set_reverse_path p e = e\<lparr>reverse_path := p\<rparr>"

definition add_forward_path :: "string \<Rightarrow> email \<Rightarrow> email" where
  "add_forward_path p e = e\<lparr>forward_paths := forward_paths e @ [p]\<rparr>"

definition add_message_line :: "string \<Rightarrow> email \<Rightarrow> email" where
  "add_message_line l e = e\<lparr>message_lines := message_lines e @ [l]\<rparr>"

subsection \<open>The searches \<^verbatim>\<open>re.search("<.*>", s)\<close> and \<^verbatim>\<open>re.search("@.*>", s)\<close>\<close>

text \<open>
  \<open>upto_last c xs\<close> is the longest prefix of \<open>xs\<close> that ends with \<open>c\<close>: what a
  greedy \<^verbatim>\<open>.*\<close> followed by the character \<open>c\<close> matches inside \<open>xs\<close>.
\<close>

definition upto_last :: "char \<Rightarrow> string \<Rightarrow> string option" where
  "upto_last c xs =
     (if c \<in> set xs then Some (rev (dropWhile (\<lambda>x. x \<noteq> c) (rev xs))) else None)"

text \<open>
  \<open>re_search_to_gt c s\<close> is \<^verbatim>\<open>re.search(c + ".*>", s)\<close>: the match object's text
  for the leftmost occurrence of \<open>c\<close> from which the pattern matches, or \<open>None\<close>.
  The dot does not match a newline, so \<^verbatim>\<open>.*\<close> stays within the line.
\<close>

fun re_search_to_gt :: "char \<Rightarrow> string \<Rightarrow> string option" where
  "re_search_to_gt c [] = None"
| "re_search_to_gt c (x # xs) =
     (if x = c then
        (case upto_last (CHR ''>'') (takeWhile (\<lambda>y. y \<noteq> LF) xs) of
           Some m \<Rightarrow> Some (x # m)
         | None \<Rightarrow> re_search_to_gt c xs)
      else re_search_to_gt c xs)"

text \<open>Subscripting the result of a search with \<^verbatim>\<open>[0]\<close> raises when there is no match.\<close>

definition group0 :: "string option \<Rightarrow> exn + string" where
  "group0 r = (case r of None \<Rightarrow> Inl TypeError | Some m \<Rightarrow> Inr m)"

subsection \<open>Rendering for the forward files\<close>

text \<open>
  The set comprehension of \<^verbatim>\<open>domain_specific_forward_file_names\<close>: each forward
  path contributes the text between its \<^verbatim>\<open>@\<close> and its closing bracket
  (the slice \<^verbatim>\<open>[1:-1]\<close> of the match).
\<close>

definition forward_file_name :: "string \<Rightarrow> exn + string" where
  "forward_file_name forward_path =
     (case group0 (re_search_to_gt (CHR ''@'') forward_path) of
        Inl e \<Rightarrow> Inl e
      | Inr m \<Rightarrow> Inr (butlast (tl m)))"

text \<open>
  The values that the comprehension inserts into its set, one for each forward
  path in turn; the first search without a match raises.
\<close>

fun file_names_of :: "string list \<Rightarrow> exn + string list" where
  "file_names_of [] = Inr []"
| "file_names_of (p # ps) =
     (case forward_file_name p of
        Inl e \<Rightarrow> Inl e
      | Inr n \<Rightarrow>
          (case file_names_of ps of
             Inl e \<Rightarrow> Inl e
           | Inr ns \<Rightarrow> Inr (n # ns)))"

text \<open>
  A Python set of strings is modelled by the list of its elements, each once, in
  the order in which the set is iterated.  That order is the interpreter's
  choice; \<open>rank\<close> stands for it: given the values in the order of their
  insertion, it ranks the elements, and the set is iterated by ascending rank
  (elements of equal rank in the order of their last insertion).  Every
  order of the elements comes from some \<open>rank\<close>.
\<close>

type_synonym set_order = "string list \<Rightarrow> string \<Rightarrow> nat"

definition set_of_values :: "set_order \<Rightarrow> string list \<Rightarrow> string list" where
  "set_of_values rank xs = sort_key (rank xs) (remdups xs)"

definition domain_specific_forward_file_names :: "set_order \<Rightarrow> email \<Rightarrow> exn + string list" where
  "domain_specific_forward_file_names rank e =
     (case file_names_of (forward_paths e) of
        Inl err \<Rightarrow> Inl err
      | Inr ns \<Rightarrow> Inr (set_of_values rank ns))"

definition forward_file_ready_text_lines :: "email \<Rightarrow> string list" where
  "forward_file_ready_text_lines e = message_lines e"


section \<open>The server (server.py)\<close>

subsection \<open>Environment, socket and files\<close>

text \<open>
  What the server takes from its host: \<^verbatim>\<open>getfqdn()\<close>, \<^verbatim>\<open>gethostname()\<close>,
  the address of the connected client, \<^verbatim>\<open>client_address[0]\<close>, and the order
  in which the interpreter iterates its sets.
\<close>

record server_env =
  srv_fqdn :: string
  srv_hostname :: string
  client_address :: string
  set_rank :: set_order

text \<open>
  The connection socket as the session uses it: the messages sent so far, whether
  \<^verbatim>\<open>close()\<close> was called, and which calls of \<^verbatim>\<open>send\<close> raise (the call made
  after \<open>n\<close> messages went out raises when \<open>send_raises n\<close>).
\<close>

record connection =
  sent :: "string list"
  closed :: bool
  send_raises :: "nat \<Rightarrow> bool"

definition close_connection :: "connection \<Rightarrow> connection" where
  "close_connection c = c\<lparr>closed := True\<rparr>"

text \<open>
  \<^verbatim>\<open>send_msg\<close>: on an exception of \<^verbatim>\<open>send\<close> the socket is closed and
  \<^verbatim>\<open>SocketError\<close> is raised.  Sending on a closed socket raises as well.
\<close>

definition send_msg :: "string \<Rightarrow> connection \<Rightarrow> exn option \<times> connection" where
  "send_msg msg c =
     (if closed c \<or> send_raises c (length (sent c))
      then (Some SocketError, close_connection c)
      else (None, c\<lparr>sent := sent c @ [msg]\<rparr>))"

text \<open>
  The files under \<^verbatim>\<open>forward/\<close>, by path: the text each holds (a file that
  does not exist holds none; opening with mode \<^verbatim>\<open>a+\<close> creates it), the paths
  for which \<^verbatim>\<open>open\<close> raises (a missing directory, a name that is too long,
  no permission), and the calls of \<^verbatim>\<open>write\<close> that raise (the call made
  after \<open>k\<close> lines were written to the file since it was opened raises when
  \<open>write_raises path k\<close>).
\<close>

record file_system =
  contents :: "string \<Rightarrow> string"
  open_raises :: "string \<Rightarrow> bool"
  write_raises :: "string \<Rightarrow> nat \<Rightarrow> bool"

text \<open>
  \<^verbatim>\<open>for line in lines: forward_file.write(line)\<close>, from the \<open>k\<close>-th write on:
  each line goes to the end of the file; a write that raises ends the loop with
  the lines before it written.
\<close>

fun write_lines ::
  "string \<Rightarrow> nat \<Rightarrow> string list \<Rightarrow> file_system \<Rightarrow> exn option \<times> file_system"
where
  "write_lines path k [] fs = (None, fs)"
| "write_lines path k (line # lines) fs =
     (if write_raises fs path k then (Some OSError, fs)
      else write_lines path (Suc k) lines
             (fs\<lparr>contents := (contents fs)(path := contents fs path @ line)\<rparr>))"

text \<open>
  \<^verbatim>\<open>with open("forward/" + ff_name, 'a+') as forward_file:\<close> and the loop over
  the lines inside it.
\<close>

definition append_to_forward_file ::
  "string \<Rightarrow> string list \<Rightarrow> file_system \<Rightarrow> exn option \<times> file_system"
where
  "append_to_forward_file ff_name text_lines fs =
     (if open_raises fs (''forward/'' @ ff_name) then (Some OSError, fs)
      else write_lines (''forward/'' @ ff_name) 0 text_lines fs)"

text \<open>
  The delivery loop of \<^verbatim>\<open>STATE_4\<close> over the names of the set, in the order
  of its iteration: the first exception ends it, with the files before written.
\<close>

fun write_forward_files ::
  "string list \<Rightarrow> string list \<Rightarrow> file_system \<Rightarrow> exn option \<times> file_system"
where
  "write_forward_files [] text_lines fs = (None, fs)"
| "write_forward_files (ff_name # ff_names) text_lines fs =
     (case append_to_forward_file ff_name text_lines fs of
        (Some e, fs') \<Rightarrow> (Some e, fs')
      | (None, fs') \<Rightarrow> write_forward_files ff_names text_lines fs')"

subsection \<open>Response messages\<close>

definition GREETING_220_MSG :: "server_env \<Rightarrow> string" where
  "GREETING_220_MSG env = ''220 '' @ srv_fqdn env @ [LF]"

definition CLOS_CON_221_MSG :: "server_env \<Rightarrow> string" where
  "CLOS_CON_221_MSG env = ''221 '' @ srv_hostname env @ '' closing connection'' @ [LF]"

definition HELO_ACK_250_MSG :: "server_env \<Rightarrow> string" where
  "HELO_ACK_250_MSG env =
     ''250 Hello '' @ client_address env @ '' pleased to meet you'' @ [LF]"

definition OK_250_MSG :: string where
  "OK_250_MSG = ''250 OK'' @ [LF]"

definition START_MAIL_354_MSG :: string where
  "START_MAIL_354_MSG = ''354 Start mail input; end with <CRLF>.<CRLF>'' @ [LF]"

definition SYN_COM_UNREC_ERR_500_MSG :: string where
  "SYN_COM_UNREC_ERR_500_MSG = ''500 Syntax error: command unrecognized'' @ [LF]"

definition SYN_PARAM_ARG_ERR_501_MSG :: string where
  "SYN_PARAM_ARG_ERR_501_MSG = ''501 Syntax error in parameters or arguments'' @ [LF]"

definition BAD_SEQ_COM_ERR_503_MSG :: string where
  "BAD_SEQ_COM_ERR_503_MSG = ''503 Bad sequence of commands'' @ [LF]"

subsection \<open>The state machine\<close>

datatype state = STATE_0 | STATE_1 | STATE_2 | STATE_3 | STATE_4

text \<open>
  The variables of one connection's loop, and the files the loop writes to.
\<close>

record session =
  state :: state
  current_email :: email
  connection_socket :: connection
  forward_files :: file_system

text \<open>
  How one pass through the body of the inner loop ends: with \<^verbatim>\<open>continue\<close>,
  with \<^verbatim>\<open>break\<close>, or with an exception.
\<close>

datatype signal = Continue | Break | Raise exn

text \<open>
  \<^verbatim>\<open>send_msg(msg, connection_socket)\<close> followed by the statements \<open>rest\<close>, which
  run only when the send did not raise.
\<close>

definition send_then ::
  "string \<Rightarrow> (session \<Rightarrow> signal \<times> session) \<Rightarrow> session \<Rightarrow> signal \<times> session"
where
  "send_then msg rest s =
     (case send_msg msg (connection_socket s) of
        (Some e, c) \<Rightarrow> (Raise e, s\<lparr>connection_socket := c\<rparr>)
      | (None, c) \<Rightarrow> rest (s\<lparr>connection_socket := c\<rparr>))"

definition continue :: "session \<Rightarrow> signal \<times> session" where
  "continue s = (Continue, s)"

definition close_and_break :: "session \<Rightarrow> signal \<times> session" where
  "close_and_break s =
     (Break, s\<lparr>connection_socket := close_connection (connection_socket s)\<rparr>)"

definition goto :: "state \<Rightarrow> session \<Rightarrow> signal \<times> session" where
  "goto st s = (Continue, s\<lparr>state := st\<rparr>)"

text \<open>
  The statements of the inner loop after a complete message \<open>msg_str\<close> was taken
  from the stream: one branch per state, with the source's order of tests.
\<close>

definition process_message :: "server_env \<Rightarrow> string \<Rightarrow> session \<Rightarrow> signal \<times> session" where
  "process_message env msg_str s =
     (case state s of
        STATE_0 \<Rightarrow>
          (case Message msg_str of
             Inl e \<Rightarrow> (Raise e, s)
           | Inr msg \<Rightarrow>
               if \<not> is_recognized msg then send_then SYN_COM_UNREC_ERR_500_MSG continue s
               else if \<not> is_helo_msg msg then
                 (if is_quit_cmd msg then
                    (if has_valid_params_args msg
                     then send_then (CLOS_CON_221_MSG env) close_and_break s
                     else send_then SYN_PARAM_ARG_ERR_501_MSG continue s)
                  else send_then BAD_SEQ_COM_ERR_503_MSG continue s)
               else if \<not> has_valid_params_args msg
                 then send_then SYN_PARAM_ARG_ERR_501_MSG continue s
               else send_then (HELO_ACK_250_MSG env) (goto STATE_1) s)
      | STATE_1 \<Rightarrow>
          (case Message msg_str of
             Inl e \<Rightarrow> (Raise e, s)
           | Inr msg \<Rightarrow>
               if \<not> is_recognized msg then send_then SYN_COM_UNREC_ERR_500_MSG continue s
               else if \<not> is_mail_from_cmd msg then
                 (if is_quit_cmd msg then
                    (if has_valid_params_args msg
                     then send_then (CLOS_CON_221_MSG env) close_and_break s
                     else send_then SYN_PARAM_ARG_ERR_501_MSG continue s)
                  else send_then BAD_SEQ_COM_ERR_503_MSG continue s)
               else if \<not> has_valid_params_args msg
                 then send_then SYN_PARAM_ARG_ERR_501_MSG continue s
               else
                 (case group0 (re_search_to_gt (CHR ''<'') msg_str) of
                    Inl e \<Rightarrow> (Raise e, s)
                  | Inr p \<Rightarrow>
                      send_then OK_250_MSG (goto STATE_2)
                        (s\<lparr>current_email := set_reverse_path p (current_email s)\<rparr>)))
      | STATE_2 \<Rightarrow>
          (case Message msg_str of
             Inl e \<Rightarrow> (Raise e, s)
           | Inr msg \<Rightarrow>
               if \<not> is_recognized msg then send_then SYN_COM_UNREC_ERR_500_MSG continue s
               else if \<not> is_rcpt_to_cmd msg then
                 (if is_quit_cmd msg then
                    (if has_valid_params_args msg
                     then send_then (CLOS_CON_221_MSG env) close_and_break s
                     else send_then SYN_PARAM_ARG_ERR_501_MSG continue s)
                  else send_then BAD_SEQ_COM_ERR_503_MSG continue s)
               else if \<not> has_valid_params_args msg
                 then send_then SYN_PARAM_ARG_ERR_501_MSG continue s
               else
                 (case group0 (re_search_to_gt (CHR ''<'') msg_str) of
                    Inl e \<Rightarrow> (Raise e, s)
                  | Inr p \<Rightarrow>
                      send_then OK_250_MSG (goto STATE_3)
                        (s\<lparr>current_email := add_forward_path p (current_email s)\<rparr>)))
      | STATE_3 \<Rightarrow>
          (case Message msg_str of
             Inl e \<Rightarrow> (Raise e, s)
           | Inr msg \<Rightarrow>
               if \<not> is_recognized msg then send_then SYN_COM_UNREC_ERR_500_MSG continue s
               else if is_quit_cmd msg then
                 (if has_valid_params_args msg
                  then send_then (CLOS_CON_221_MSG env) close_and_break s
                  else send_then SYN_PARAM_ARG_ERR_501_MSG continue s)
               else if is_rcpt_to_cmd msg then
                 (if \<not> has_valid_params_args msg
                  then send_then SYN_PARAM_ARG_ERR_501_MSG continue s
                  else
                    (case group0 (re_search_to_gt (CHR ''<'') msg_str) of
                       Inl e \<Rightarrow> (Raise e, s)
                     | Inr p \<Rightarrow>
                         send_then OK_250_MSG continue
                           (s\<lparr>current_email := add_forward_path p (current_email s)\<rparr>)))
               else if is_data_cmd msg then
                 (if \<not> has_valid_params_args msg
                  then send_then SYN_PARAM_ARG_ERR_501_MSG continue s
                  else send_then START_MAIL_354_MSG (goto STATE_4) s)
               else send_then BAD_SEQ_COM_ERR_503_MSG continue s)
      | STATE_4 \<Rightarrow>
          if msg_str = EOMD_SEQ then
            (case domain_specific_forward_file_names (set_rank env) (current_email s) of
               Inl e \<Rightarrow> (Raise e, s)
             | Inr names \<Rightarrow>
                 (case write_forward_files names
                         (forward_file_ready_text_lines (current_email s)) (forward_files s) of
                    (Some e, fs) \<Rightarrow> (Raise e, s\<lparr>forward_files := fs\<rparr>)
                  | (None, fs) \<Rightarrow>
                      send_then OK_250_MSG
                        (\<lambda>s'. (Continue, s'\<lparr>current_email := Email, state := STATE_1\<rparr>))
                        (s\<lparr>forward_files := fs\<rparr>)))
          else (Continue, s\<lparr>current_email := add_message_line msg_str (current_email s)\<rparr>))"


section \<open>The classifier's contract, in the words of the specification\<close>

text \<open>
  A one-word keyword (\<^verbatim>\<open>HELO\<close>, \<^verbatim>\<open>DATA\<close>, \<^verbatim>\<open>QUIT\<close>) matches a line when the
  line starts with it and the keyword ends there: nothing, a space, a tab or a
  newline follows.
\<close>

definition keyword_matches :: "string \<Rightarrow> string \<Rightarrow> bool" where
  "keyword_matches k ms \<longleftrightarrow> prefix k ms \<and> keyword_ends (drop (length k) ms)"

text \<open>
  A two-word keyword (\<^verbatim>\<open>MAIL FROM:\<close>, \<^verbatim>\<open>RCPT TO:\<close>) matches a line when the
  line starts with the first word, at least one space or tab, and the second word.
\<close>

definition keyword2_matches :: "string \<Rightarrow> string \<Rightarrow> string \<Rightarrow> bool" where
  "keyword2_matches w1 w2 ms \<longleftrightarrow>
     prefix w1 ms \<and>
     (let r = drop (length w1) ms in
        takeWhile is_SP r \<noteq> [] \<and> prefix w2 (dropWhile is_SP r))"

text \<open>The first command, in the priority order, whose keyword matches.\<close>

definition first_matching_keyword :: "string \<Rightarrow> msg_type" where
  "first_matching_keyword ms =
     (if keyword_matches ''HELO'' ms then HELO
      else if keyword2_matches ''MAIL'' ''FROM:'' ms then MAIL_FROM
      else if keyword2_matches ''RCPT'' ''TO:'' ms then RCPT_TO
      else if keyword_matches ''DATA'' ms then DATA
      else if keyword_matches ''QUIT'' ms then QUIT
      else UNRECOGNIZED)"

text \<open>A parsing function that raises nothing but plain \<^verbatim>\<open>ParsingError\<close>s.\<close>

definition raises_only_ParsingError :: "(string \<Rightarrow> exn + string) \<Rightarrow> bool" where
  "raises_only_ParsingError p \<longleftrightarrow> (\<forall>rs e. p rs = Inl e \<longrightarrow> (\<exists>m. e = ParsingError m))"


section \<open>Mailboxes, in the words of the specification\<close>

text \<open>
  The special characters of the grammar: \<^verbatim>\<open>< > ( ) [ ] \ . , ; : @ "\<close>.
\<close>

definition special :: "char list" where
  "special = ''<>()[]'' @ [CHR 0x5C] @ ''.,;:@'' @ [CHR 0x22]"

text \<open>
  A local part is a non-empty string of printable ASCII characters other than the
  special characters, space and tab.  A domain is a dot-separated sequence of
  elements; an element is a letter followed by letters and digits.
\<close>

definition valid_local_part :: "string \<Rightarrow> bool" where
  "valid_local_part l \<longleftrightarrow>
     l \<noteq> [] \<and> list_all (\<lambda>c. is_text_char c \<and> c \<notin> set special \<and> \<not> is_SP c) l"

definition valid_element :: "string \<Rightarrow> bool" where
  "valid_element e \<longleftrightarrow>
     (case e of [] \<Rightarrow> False | c # cs \<Rightarrow> is_letter c \<and> list_all is_let_dig cs)"

fun dotted :: "string list \<Rightarrow> string" where
  "dotted [] = []"
| "dotted [e] = e"
| "dotted (e # es) = e @ CHR ''.'' # dotted es"

definition valid_domain_elements :: "string list \<Rightarrow> bool" where
  "valid_domain_elements es \<longleftrightarrow> es \<noteq> [] \<and> list_all valid_element es"


section \<open>Framing and the session loop (server.py)\<close>

subsection \<open>The stream buffer\<close>

text \<open>
  The session keeps the received text in a \<^verbatim>\<open>RemainingString\<close> and calls three
  methods on it, \<^verbatim>\<open>contains_complete_msg\<close>, \<^verbatim>\<open>append\<close> and
  \<^verbatim>\<open>consume_and_get_msg\<close>.  The class in \<^verbatim>\<open>parse.py\<close> does not define them,
  so they are taken from the specification's paragraph on framing.
\<close>

text \<open>
  Modelled from the spec: the method \<^verbatim>\<open>contains_complete_msg\<close> of
  \<^verbatim>\<open>RemainingString\<close>, which is called in \<^verbatim>\<open>server.py\<close> and defined nowhere:
  ``the buffer contains a complete line terminator''.
\<close>

definition contains_complete_msg :: "string \<Rightarrow> bool" where
  "contains_complete_msg buf \<longleftrightarrow> LF \<in> set buf"

text \<open>
  Modelled from the spec: the method \<^verbatim>\<open>append\<close> of \<^verbatim>\<open>RemainingString\<close>, which
  is called in \<^verbatim>\<open>server.py\<close> and defined nowhere: the session ``reads from its
  connection in arbitrary-sized chunks and buffers them''.
\<close>

definition append_chunk :: "string \<Rightarrow> string \<Rightarrow> string" where
  "append_chunk buf chunk = buf @ chunk"

text \<open>
  Modelled from the spec: the method \<^verbatim>\<open>consume_and_get_msg\<close> of
  \<^verbatim>\<open>RemainingString\<close>, which is called in \<^verbatim>\<open>server.py\<close> and defined nowhere:
  it ``extracts and removes exactly one line (up to and including the
  terminator)''.  The result is the line and the buffer that remains.
\<close>

definition consume_and_get_msg :: "string \<Rightarrow> string \<times> string" where
  "consume_and_get_msg buf =
     (takeWhile (\<lambda>c. c \<noteq> LF) buf @ [LF], tl (dropWhile (\<lambda>c. c \<noteq> LF) buf))"

subsection \<open>Receiving\<close>

text \<open>
  What one call of \<^verbatim>\<open>recv\<close> on the connection socket does: it returns a chunk
  (taken as already decoded), or it raises.
\<close>

datatype recv_result = Chunk string | RecvError

text \<open>
  \<^verbatim>\<open>recv_msg\<close>: when \<^verbatim>\<open>recv\<close> raises, the handler closes the socket and then
  builds its message with \<^verbatim>\<open>"... STATE_" + state\<close>, where \<^verbatim>\<open>state\<close> is an
  integer; the concatenation raises \<^verbatim>\<open>TypeError\<close> before \<^verbatim>\<open>SocketError\<close> is
  reached.
\<close>

definition recv_msg :: "recv_result \<Rightarrow> connection \<Rightarrow> (exn + string) \<times> connection" where
  "recv_msg r c =
     (case r of
        Chunk m \<Rightarrow> (Inr m, c)
      | RecvError \<Rightarrow> (Inl TypeError, close_connection c))"

subsection \<open>The inner loop\<close>

text \<open>
  How the inner loop stands after the calls of \<^verbatim>\<open>recv\<close> that are given to it:
  waiting in \<^verbatim>\<open>recv\<close> for more bytes (with the session and the buffer as they
  are then), left by \<^verbatim>\<open>break\<close>, or left by an exception other than
  \<^verbatim>\<open>SocketError\<close>, which the loop does not catch.
\<close>

datatype loop_end = Awaiting session string | Left session | Uncaught exn session

text \<open>
  \<^verbatim>\<open>except SocketError: break\<close> around the body of the loop.
\<close>

definition leave :: "exn \<Rightarrow> session \<Rightarrow> loop_end" where
  "leave e s = (if e = SocketError then Left s else Uncaught e s)"

function session_loop ::
  "server_env \<Rightarrow> session \<Rightarrow> string \<Rightarrow> recv_result list \<Rightarrow> loop_end"
where
  "session_loop env s buf rs =
     (if \<not> contains_complete_msg buf then
        (case rs of
           [] \<Rightarrow> Awaiting s buf
         | r # rs' \<Rightarrow>
             (case recv_msg r (connection_socket s) of
                (Inl e, c) \<Rightarrow> leave e (s\<lparr>connection_socket := c\<rparr>)
              | (Inr m, c) \<Rightarrow>
                  session_loop env (s\<lparr>connection_socket := c\<rparr>) (append_chunk buf m) rs'))
      else
        (case consume_and_get_msg buf of
           (msg_str, buf') \<Rightarrow>
             (case process_message env msg_str s of
                (Continue, s') \<Rightarrow> session_loop env s' buf' rs
              | (Break, s') \<Rightarrow> Left s'
              | (Raise e, s') \<Rightarrow> leave e s')))"
  by pat_completeness auto
termination
proof (relation "measures [\<lambda>(env, s, buf, rs). length rs, \<lambda>(env, s, buf, rs). length buf]")
  show "wf (measures [\<lambda>(env, s, buf, rs). length rs, \<lambda>(env, s, buf, rs). length buf])"
    by simp
next
  fix env :: server_env and s :: session and buf :: string and rs :: "recv_result list"
    and r rs' x c m
  assume "rs = r # rs'"
  then show "((env, s\<lparr>connection_socket := c\<rparr>, append_chunk buf m, rs'), env, s, buf, rs)
      \<in> measures [\<lambda>(env, s, buf, rs). length rs, \<lambda>(env, s, buf, rs). length buf]"
    by simp
next
  fix env :: server_env and s :: session and buf :: string and rs :: "recv_result list"
    and x msg_str buf' y sg s'
  assume "\<not> \<not> contains_complete_msg buf" and "(msg_str, buf') = consume_and_get_msg buf"
  then have "LF \<in> set buf" and "buf' = tl (dropWhile (\<lambda>c. c \<noteq> LF) buf)"
    by (simp_all add: contains_complete_msg_def consume_and_get_msg_def)
  then have "length buf' < length buf"
    by (induction buf arbitrary: buf') auto
  then show "((env, s', buf', rs), env, s, buf, rs)
      \<in> measures [\<lambda>(env, s, buf, rs). length rs, \<lambda>(env, s, buf, rs). length buf]"
    by simp
qed

declare session_loop.simps [simp del]

text \<open>
  The variables of the loop when it is entered: \<^verbatim>\<open>STATE_0\<close>, a new
  \<^verbatim>\<open>Email\<close>, and an empty buffer.
\<close>

definition initial_session :: "connection \<Rightarrow> file_system \<Rightarrow> session" where
  "initial_session c fs =
     \<lparr>state = STATE_0, current_email = Email, connection_socket = c, forward_files = fs\<rparr>"

text \<open>
  After \<^verbatim>\<open>accept\<close>: the greeting is sent; when that raises, the server waits
  for the next connection and no session is run.
\<close>

definition serve_connection ::
  "server_env \<Rightarrow> connection \<Rightarrow> file_system \<Rightarrow> recv_result list \<Rightarrow> loop_end option"
where
  "serve_connection env c fs rs =
     (case send_msg (GREETING_220_MSG env) c of
        (Some e, c') \<Rightarrow> None
      | (None, c') \<Rightarrow> Some (session_loop env (initial_session c' fs) [] rs))"


section \<open>Sessions, in the words of the specification\<close>

text \<open>
  The complete lines of a text, each up to and including its terminator, and
  the unterminated rest after the last of them.
\<close>

fun lines_from :: "string \<Rightarrow> string \<Rightarrow> string list" where
  "lines_from cur [] = []"
| "lines_from cur (c # cs) =
     (if c = LF then (cur @ [LF]) # lines_from [] cs else lines_from (cur @ [c]) cs)"

fun rest_from :: "string \<Rightarrow> string \<Rightarrow> string" where
  "rest_from cur [] = cur"
| "rest_from cur (c # cs) =
     (if c = LF then rest_from [] cs else rest_from (cur @ [c]) cs)"

definition complete_lines :: "string \<Rightarrow> string list" where
  "complete_lines text = lines_from [] text"

definition unterminated_rest :: "string \<Rightarrow> string" where
  "unterminated_rest text = rest_from [] text"

text \<open>
  Handling a list of lines one after the other, until one of them ends the loop.
\<close>

fun process_messages :: "server_env \<Rightarrow> string list \<Rightarrow> session \<Rightarrow> signal \<times> session" where
  "process_messages env [] s = (Continue, s)"
| "process_messages env (l # ls) s =
     (case process_message env l s of
        (Continue, s') \<Rightarrow> process_messages env ls s'
      | (Break, s') \<Rightarrow> (Break, s')
      | (Raise e, s') \<Rightarrow> (Raise e, s'))"





text \<open>
  A file that can be opened and takes the given lines: neither \<^verbatim>\<open>open\<close> nor
  one of the writes raises.
\<close>

definition file_accepts :: "file_system \<Rightarrow> string \<Rightarrow> string list \<Rightarrow> bool" where
  "file_accepts fs path text_lines \<longleftrightarrow>
     \<not> open_raises fs path \<and> list_all (\<lambda>k. \<not> write_raises fs path k) [0..<length text_lines]"

text \<open>A socket on which the next \<^verbatim>\<open>send\<close> does not raise.\<close>

definition can_send :: "connection \<Rightarrow> bool" where
  "can_send c \<longleftrightarrow> \<not> closed c \<and> \<not> send_raises c (length (sent c))"


section \<open>The client's conversation (email.py)\<close>

subsection \<open>Response messages (parse.py)\<close>

definition parse_220_resp_code_msg :: "string \<Rightarrow> exn + string" where
  "parse_220_resp_code_msg =
     parse_seq [consume_or ''server-greeting'' (re_lit ''220''), parse_whitespace,
                parse_arbitrary_text, parse_CRLF]"

definition parse_221_resp_code_msg :: "string \<Rightarrow> exn + string" where
  "parse_221_resp_code_msg =
     parse_seq [consume_or ''250-resp-code-msg'' (re_lit ''221''), parse_whitespace,
                parse_arbitrary_text, parse_CRLF]"

definition parse_250_resp_code_msg :: "string \<Rightarrow> exn + string" where
  "parse_250_resp_code_msg =
     parse_seq [consume_or ''250-resp-code-msg'' (re_lit ''250''), parse_whitespace,
                parse_arbitrary_text, parse_CRLF]"

definition parse_354_resp_code_msg :: "string \<Rightarrow> exn + string" where
  "parse_354_resp_code_msg =
     parse_seq [consume_or ''250-resp-code-msg'' (re_lit ''354''), parse_whitespace,
                parse_arbitrary_text, parse_CRLF]"

subsection \<open>Environment and socket of the client\<close>

text \<open>
  What \<^verbatim>\<open>send\<close> reads from its host: \<^verbatim>\<open>getfqdn()\<close>; the first component of
  \<^verbatim>\<open>mimetypes.guess_type(filename)\<close>, which may be \<^verbatim>\<open>None\<close>; and the
  base64 encoding of the contents of a file, \<open>None\<close> when \<^verbatim>\<open>open\<close> raises.
\<close>

record client_env =
  cli_fqdn :: string
  guess_type :: "string \<Rightarrow> string option"
  encoded_file :: "string \<Rightarrow> string option"

text \<open>
  The client socket: what the coming calls of \<^verbatim>\<open>recv\<close> return, the calls
  made so far in their order, and which calls of \<^verbatim>\<open>send\<close> raise (the call made
  when the history has \<open>n\<close> entries raises when \<open>send_fails n\<close>).
\<close>

datatype event = Sent string | Received string | Closed

record client_socket =
  incoming :: "recv_result list"
  history :: "event list"
  send_fails :: "nat \<Rightarrow> bool"

definition close_socket :: "client_socket \<Rightarrow> client_socket" where
  "close_socket sock = sock\<lparr>history := history sock @ [Closed]\<rparr>"

text \<open>
  How a part of the conversation ends when it does not run to its end: with an
  exception, or waiting in \<^verbatim>\<open>recv\<close> for a response that has not arrived.
\<close>

datatype halt = Raised exn | Blocked

type_synonym action = "client_socket \<Rightarrow> halt option \<times> client_socket"

text \<open>Statements in sequence: the first one that halts ends the sequence.\<close>

fun run_steps :: "action list \<Rightarrow> action" where
  "run_steps [] sock = (None, sock)"
| "run_steps (a # as) sock =
     (case a sock of
        (Some h, sock') \<Rightarrow> (Some h, sock')
      | (None, sock') \<Rightarrow> run_steps as sock')"

definition raise :: "exn \<Rightarrow> action" where
  "raise e sock = (Some (Raised e), sock)"

subsection \<open>Sending and receiving\<close>

text \<open>
  \<^verbatim>\<open>_send_msg\<close>: when \<^verbatim>\<open>send\<close> raises, the socket is closed and
  \<^verbatim>\<open>SocketError\<close> is raised.  Sending on a closed socket raises as well.
\<close>

definition cli_send_msg :: "string \<Rightarrow> action" where
  "cli_send_msg msg sock =
     (if Closed \<in> set (history sock) \<or> send_fails sock (length (history sock))
      then (Some (Raised SocketError), close_socket sock)
      else (None, sock\<lparr>history := history sock @ [Sent msg]\<rparr>))"

text \<open>
  The chain of tests on \<^verbatim>\<open>expected_msg_type\<close>; for any other value the variable
  \<^verbatim>\<open>parsing_procedure\<close> stays unassigned.
\<close>

definition parsing_procedure :: "string \<Rightarrow> (string \<Rightarrow> exn + string) option" where
  "parsing_procedure expected_msg_type =
     (if expected_msg_type = ''220'' then Some parse_220_resp_code_msg
      else if expected_msg_type = ''221'' then Some parse_221_resp_code_msg
      else if expected_msg_type = ''250'' then Some parse_250_resp_code_msg
      else if expected_msg_type = ''354'' then Some parse_354_resp_code_msg
      else None)"

text \<open>
  The chain of tests on \<^verbatim>\<open>sent_msg_type\<close> that chooses the text to print when
  \<^verbatim>\<open>recv\<close> raised; it compares with \<^verbatim>\<open>"RCTP_TO"\<close>.  For any other value the
  variable \<^verbatim>\<open>rec_error_output\<close> stays unassigned, and printing it raises.
\<close>

definition rec_error_output_assigned :: "string option \<Rightarrow> bool" where
  "rec_error_output_assigned sent_msg_type \<longleftrightarrow>
     sent_msg_type = Some ''HELO'' \<or> sent_msg_type = Some ''MAIL_FROM''
       \<or> sent_msg_type = Some ''RCTP_TO'' \<or> sent_msg_type = Some ''DATA''
       \<or> sent_msg_type = Some ''QUIT'' \<or> sent_msg_type = Some ''MESSAGE_DATA''
       \<or> sent_msg_type = None"

text \<open>The same chain for the text printed when the response was not valid.\<close>

definition val_error_output_assigned :: "string option \<Rightarrow> bool" where
  "val_error_output_assigned sent_msg_type \<longleftrightarrow>
     sent_msg_type = Some ''HELO'' \<or> sent_msg_type = Some ''MAIL_FROM''
       \<or> sent_msg_type = Some ''RCPT_TO'' \<or> sent_msg_type = Some ''DATA''
       \<or> sent_msg_type = Some ''QUIT'' \<or> sent_msg_type = Some ''MESSAGE_DATA''
       \<or> sent_msg_type = None"

text \<open>
  \<^verbatim>\<open>_receive_and_validate\<close>.  The texts it prints are left out, and with them
  the parameter \<^verbatim>\<open>sent_msg\<close>, which is used for nothing else.  In both
  handlers the socket is closed before the text is printed.
\<close>

definition receive_and_validate :: "string \<Rightarrow> string option \<Rightarrow> action" where
  "receive_and_validate expected_msg_type sent_msg_type sock =
     (case incoming sock of
        [] \<Rightarrow> (Some Blocked, sock)
      | RecvError # rest \<Rightarrow>
          (Some (Raised (if rec_error_output_assigned sent_msg_type then SocketError
                         else UnboundLocalError)),
           close_socket (sock\<lparr>incoming := rest\<rparr>))
      | Chunk msg_str # rest \<Rightarrow>
          (let sock' = sock\<lparr>incoming := rest, history := history sock @ [Received msg_str]\<rparr> in
           case parsing_procedure expected_msg_type of
             None \<Rightarrow> (Some (Raised UnboundLocalError), sock')
           | Some parse \<Rightarrow>
               (case parse msg_str of
                  Inr _ \<Rightarrow> (None, sock')
                | Inl e \<Rightarrow>
                    (case as_ParsingError e of
                       None \<Rightarrow> (Some (Raised e), sock')
                     | Some _ \<Rightarrow>
                         (Some (Raised (if val_error_output_assigned sent_msg_type
                                        then SMTPBreakOfProtocolError
                                        else UnboundLocalError)),
                          close_socket sock')))))"

subsection \<open>The messages of one email\<close>

definition get_helo_msg :: "client_env \<Rightarrow> string" where
  "get_helo_msg env = ''HELO '' @ cli_fqdn env @ [LF]"

definition get_mail_from_cmd :: "email \<Rightarrow> string" where
  "get_mail_from_cmd e = ''MAIL FROM: '' @ reverse_path e @ [LF]"

definition get_rcpt_to_cmds :: "email \<Rightarrow> string list" where
  "get_rcpt_to_cmds e = map (\<lambda>forward_path. ''RCPT TO: '' @ forward_path @ [LF]) (forward_paths e)"

definition get_data_cmd :: string where
  "get_data_cmd = ''DATA'' @ [LF]"

definition get_eomd_seq :: string where
  "get_eomd_seq = EOMD_SEQ"

definition get_quit_cmd :: string where
  "get_quit_cmd = ''QUIT'' @ [LF]"

text \<open>\<^verbatim>\<open>", ".join(xs)\<close>\<close>

fun join_comma :: "string list \<Rightarrow> string" where
  "join_comma [] = []"
| "join_comma [x] = x"
| "join_comma (x # xs) = x @ '', '' @ join_comma xs"

text \<open>
  The generator \<^verbatim>\<open>_get_SMTP_MIME_message_data_lines\<close>: the lines it yields, and
  the exception that ends it early, if any.  Concatenating \<^verbatim>\<open>None\<close> to the
  content-type line raises \<^verbatim>\<open>TypeError\<close>; a file that cannot be opened raises
  \<^verbatim>\<open>OSError\<close>.  The lines yielded before are out already.
\<close>

definition get_SMTP_MIME_message_data_lines ::
  "client_env \<Rightarrow> email \<Rightarrow> string list \<times> exn option"
where
  "get_SMTP_MIME_message_data_lines env e =
     (let first_part =
            [''From: '' @ reverse_path e @ [LF],
             ''To: '' @ join_comma (forward_paths e) @ [LF],
             ''Subject: '' @ subject e @ [LF],
             ''MIME-Version: 1.0'' @ [LF],
             ''Content-Type: multipart/mixed; boundary=98766789'' @ [LF],
             [LF],
             ''--98766789'' @ [LF],
             ''Content-Transfer-Encoding: quoted-printable'' @ [LF],
             ''Content-Type: text/plain'' @ [LF],
             [LF]]
            @ message_lines e
            @ [''--98766789'' @ [LF],
               ''Content-Transfer-Encoding: base64'' @ [LF]]
      in case guess_type env (attachment_filename e) of
           None \<Rightarrow> (first_part, Some TypeError)
         | Some t \<Rightarrow>
             (let second_part = first_part @ [''Content-Type: '' @ t @ [LF], [LF]]
              in case encoded_file env (attachment_filename e) of
                   None \<Rightarrow> (second_part, Some OSError)
                 | Some b \<Rightarrow> (second_part @ [b, ''--98766789--'' @ [LF]], None)))"

text \<open>
  \<^verbatim>\<open>for data_line in generator: self._send_msg(data_line, client_socket)\<close>: each
  line is sent when it is yielded; the generator's exception, if any, comes after
  the lines yielded before it.
\<close>

definition send_generated :: "string list \<times> exn option \<Rightarrow> action list" where
  "send_generated g =
     map cli_send_msg (fst g) @ (case snd g of None \<Rightarrow> [] | Some e \<Rightarrow> [raise e])"

subsection \<open>\<open>Email.send\<close>\<close>

text \<open>
  The statements of \<^verbatim>\<open>send\<close> after the connection is made, in their order.
\<close>

definition conversation :: "client_env \<Rightarrow> email \<Rightarrow> action list" where
  "conversation env e =
     [receive_and_validate ''220'' None,
      cli_send_msg (get_helo_msg env),
      receive_and_validate ''250'' (Some ''HELO''),
      cli_send_msg (get_mail_from_cmd e),
      receive_and_validate ''250'' (Some ''MAIL_FROM'')]
     @ concat (map (\<lambda>rcpt_to_cmd.
                      [cli_send_msg rcpt_to_cmd,
                       receive_and_validate ''250'' (Some ''RCPT_TO'')])
                 (get_rcpt_to_cmds e))
     @ [cli_send_msg get_data_cmd,
        receive_and_validate ''354'' (Some ''DATA'')]
     @ send_generated (get_SMTP_MIME_message_data_lines env e)
     @ [cli_send_msg get_eomd_seq,
        receive_and_validate ''250'' (Some ''MESSAGE_DATA''),
        cli_send_msg get_quit_cmd,
        receive_and_validate ''221'' (Some ''QUIT'')]"

text \<open>
  \<^verbatim>\<open>send\<close>: the second argument stands for the attempt to create and connect
  the socket, \<open>None\<close> when it raised; then \<^verbatim>\<open>SocketError\<close> is raised and there
  is no socket.
\<close>

definition send :: "client_env \<Rightarrow> email \<Rightarrow> client_socket option \<Rightarrow> halt option \<times> client_socket option"
where
  "send env e connected =
     (case connected of
        None \<Rightarrow> (Some (Raised SocketError), None)
      | Some sock \<Rightarrow>
          (case run_steps (conversation env e) sock of (h, sock') \<Rightarrow> (h, Some sock')))"


section \<open>The conversation, in the words of the specification\<close>

text \<open>A response that matches the grammar of the expected response code.\<close>

definition matches_expected :: "string \<Rightarrow> string \<Rightarrow> bool" where
  "matches_expected code response \<longleftrightarrow>
     (case parsing_procedure code of
        None \<Rightarrow> False
      | Some parse \<Rightarrow> (case parse response of Inl _ \<Rightarrow> False | Inr _ \<Rightarrow> True))"

text \<open>
  A lock-step exchange is a list of rounds; in each round some messages are sent
  and then one response with a given code is expected.  Its course over the
  responses that arrive: the events on the connection in their order, and how it
  ends.  The first response that does not match closes the connection and ends
  the exchange with a protocol violation; nothing is sent or received after it.
\<close>

fun lock_step :: "(string list \<times> string) list \<Rightarrow> string list \<Rightarrow> event list \<times> halt option" where
  "lock_step [] responses = ([], None)"
| "lock_step ((msgs, code) # rounds) [] = (map Sent msgs, Some Blocked)"
| "lock_step ((msgs, code) # rounds) (r # responses) =
     (if matches_expected code r then
        (case lock_step rounds responses of
           (events, h) \<Rightarrow> (map Sent msgs @ Received r # events, h))
      else (map Sent msgs @ [Received r, Closed], Some (Raised SMTPBreakOfProtocolError)))"

text \<open>
  The rounds of one email: the greeting; HELO; MAIL FROM; one RCPT TO for each
  forward path; DATA; the data lines and the end-of-data marker; QUIT.
\<close>

definition rounds_of :: "client_env \<Rightarrow> email \<Rightarrow> string list \<Rightarrow> (string list \<times> string) list" where
  "rounds_of env e data_lines =
     [([], ''220''),
      ([''HELO '' @ cli_fqdn env @ [LF]], ''250''),
      ([''MAIL FROM: '' @ reverse_path e @ [LF]], ''250'')]
     @ map (\<lambda>p. ([''RCPT TO: '' @ p @ [LF]], ''250'')) (forward_paths e)
     @ [([''DATA'' @ [LF]], ''354''),
        (data_lines @ [CHR ''.'' # [LF]], ''250''),
        ([''QUIT'' @ [LF]], ''221'')]"

text \<open>A socket on which no call of \<^verbatim>\<open>send\<close> or \<^verbatim>\<open>recv\<close> raises.\<close>

definition transport_sound :: "client_socket \<Rightarrow> bool" where
  "transport_sound sock \<longleftrightarrow>
     Closed \<notin> set (history sock) \<and> (\<forall>n. \<not> send_fails sock n)
       \<and> RecvError \<notin> set (incoming sock)"

text \<open>The chunks that the coming calls of \<^verbatim>\<open>recv\<close> return.\<close>

fun chunks_of :: "recv_result list \<Rightarrow> string list" where
  "chunks_of [] = []"
| "chunks_of (Chunk m # rs) = m # chunks_of rs"
| "chunks_of (RecvError # rs) = chunks_of rs"


section \<open>Auxiliary notions\<close>




text \<open>What the loop does with the outcome of a run of lines: go on, or leave.\<close>

definition after_lines :: "signal \<times> session \<Rightarrow> (session \<Rightarrow> loop_end) \<Rightarrow> loop_end" where
  "after_lines r k =
     (case r of
        (Continue, s') \<Rightarrow> k s'
      | (Break, s') \<Rightarrow> Left s'
      | (Raise e, s') \<Rightarrow> leave e s')"

text \<open>One round of the conversation as statements of \<^verbatim>\<open>send\<close>: the messages are sent, then
  one response is received and validated.\<close>

definition round_steps :: "string list \<times> string \<times> string option \<Rightarrow> action list" where
  "round_steps r =
     (case r of (msgs, code, sent_type) \<Rightarrow>
        map cli_send_msg msgs @ [receive_and_validate code sent_type])"

text \<open>The rounds of one email with the message type that \<^verbatim>\<open>send\<close> passes to
  \<^verbatim>\<open>_receive_and_validate\<close> in each.\<close>

definition typed_rounds ::
  "client_env \<Rightarrow> email \<Rightarrow> string list \<Rightarrow> (string list \<times> string \<times> string option) list"
where
  "typed_rounds env e data_lines =
     [([], ''220'', None),
      ([get_helo_msg env], ''250'', Some ''HELO''),
      ([get_mail_from_cmd e], ''250'', Some ''MAIL_FROM'')]
     @ map (\<lambda>c. ([c], ''250'', Some ''RCPT_TO'')) (get_rcpt_to_cmds e)
     @ [([get_data_cmd], ''354'', Some ''DATA''),
        (data_lines @ [get_eomd_seq], ''250'', Some ''MESSAGE_DATA''),
        ([get_quit_cmd], ''221'', Some ''QUIT'')]"

text \<open>A round whose expected code has a parsing procedure and whose message type is one for
  which the text to print is assigned.\<close>

definition round_ok :: "string list \<times> string \<times> string option \<Rightarrow> bool" where
  "round_ok r \<longleftrightarrow>
     (case r of (msgs, code, sent_type) \<Rightarrow>
        parsing_procedure code \<noteq> None \<and> val_error_output_assigned sent_type)"

section \<open>Example hosts, sessions and emails\<close>

text \<open>A server host and a client address; the iteration of a set keeps the order of the
  list of values it was made from.\<close>

definition example_env :: server_env where
  "example_env = \<lparr>srv_fqdn = ''mail.example.org'', srv_hostname = ''mail'',
                  client_address = ''192.0.2.7'', set_rank = (\<lambda>values name. 0)\<rparr>"

text \<open>A connection on which nothing was sent yet and no \<^verbatim>\<open>send\<close> raises.\<close>

definition reliable_connection :: connection where
  "reliable_connection = \<lparr>sent = [], closed = False, send_raises = (\<lambda>n. False)\<rparr>"

text \<open>No forward file has any text, and every one can be opened and written.\<close>

definition empty_files :: file_system where
  "empty_files =
     \<lparr>contents = (\<lambda>path. []), open_raises = (\<lambda>path. False),
        write_raises = (\<lambda>path k. False)\<rparr>"

text \<open>The commands of one mail transaction, up to and including \<^verbatim>\<open>DATA\<close>.\<close>

definition example_transaction :: "string list" where
  "example_transaction =
     [''HELO client.example\<newline>'', ''MAIL FROM:<a@x.com>\<newline>'', ''RCPT TO:<b@y.com>\<newline>'',
      ''DATA\<newline>'']"

text \<open>The session after these commands and one data line.\<close>

definition example_data_session :: session where
  "example_data_session =
     \<lparr>state = STATE_4,
        current_email =
          \<lparr>reverse_path = ''<a@x.com>'', forward_paths = [''<b@y.com>''], subject = [],
             message_lines = [''Hello world\<newline>''], attachment_filename = []\<rparr>,
        connection_socket =
          reliable_connection
            \<lparr>sent := [HELO_ACK_250_MSG example_env, OK_250_MSG, OK_250_MSG, START_MAIL_354_MSG]\<rparr>,
        forward_files = empty_files\<rparr>"

text \<open>A client host with an attachment that can be read.\<close>

definition example_client_env :: client_env where
  "example_client_env =
     \<lparr>cli_fqdn = ''client.example'', guess_type = (\<lambda>filename. Some ''text/plain''),
        encoded_file = (\<lambda>filename. Some (''aGk='' @ [LF]))\<rparr>"

text \<open>An email for two recipients.\<close>

definition example_letter :: email where
  "example_letter =
     \<lparr>reverse_path = ''<a@x.com>'', forward_paths = [''<b@y.com>'', ''<c@z.org>''],
        subject = ''hi'', message_lines = [''Hello world'' @ [LF]],
        attachment_filename = ''note.txt''\<rparr>"

text \<open>A client socket on which the given responses arrive, one for each \<^verbatim>\<open>recv\<close>, and no call raises.\<close>

definition scripted_socket :: "string list \<Rightarrow> client_socket" where
  "scripted_socket responses =
     \<lparr>incoming = map Chunk responses, history = [], send_fails = (\<lambda>n. False)\<rparr>"


section \<open>Properties of the grammar and the classifier\<close>

subsection \<open>What the command parsers raise\<close>

lemma consume_lit:
  "consume (re_lit s) rs = (if prefix s rs then Inr (drop (length s) rs) else Inl ConsumptionError)"
  by (simp add: consume_def re_lit_def)

lemma consume_or_error:
  "consume_or name r rs = Inl e \<Longrightarrow> e = ParsingError name"
  by (auto simp: consume_or_def consume_def split: option.splits)

lemma consume_or_only: "raises_only_ParsingError (consume_or name r)"
  unfolding raises_only_ParsingError_def by (blast dest: consume_or_error)

lemma parse_seq_only:
  "\<forall>p \<in> set ps. raises_only_ParsingError p \<Longrightarrow> raises_only_ParsingError (parse_seq ps)"
proof (induction ps)
  case Nil
  show ?case by (simp add: raises_only_ParsingError_def)
next
  case (Cons p ps)
  then have p: "raises_only_ParsingError p" and ps: "raises_only_ParsingError (parse_seq ps)"
    by simp_all
  show ?case
    unfolding raises_only_ParsingError_def
  proof (intro allI impI)
    fix rs e assume a: "parse_seq (p # ps) rs = Inl e"
    show "\<exists>m. e = ParsingError m"
    proof (cases "p rs")
      case (Inl e')
      with a have "e = e'" by simp
      with Inl p show ?thesis by (auto simp: raises_only_ParsingError_def)
    next
      case (Inr rs')
      with a have "parse_seq ps rs' = Inl e" by simp
      with ps show ?thesis by (auto simp: raises_only_ParsingError_def)
    qed
  qed
qed

lemmas lexical_defs = parse_whitespace_def parse_nullspace_def parse_CRLF_def parse_domain_def
  parse_string_def parse_local_part_def parse_arbitrary_text_def

lemma lexical_only:
  "raises_only_ParsingError parse_whitespace"
  "raises_only_ParsingError parse_nullspace"
  "raises_only_ParsingError parse_CRLF"
  "raises_only_ParsingError parse_domain"
  "raises_only_ParsingError parse_local_part"
  "raises_only_ParsingError parse_arbitrary_text"
  by (simp_all add: lexical_defs consume_or_only)

lemma parse_mailbox_only: "raises_only_ParsingError parse_mailbox"
  unfolding parse_mailbox_def by (rule parse_seq_only) (simp add: lexical_only consume_or_only)

lemma parse_path_only: "raises_only_ParsingError parse_path"
  unfolding parse_path_def by (rule parse_seq_only) (simp add: parse_mailbox_only consume_or_only)

lemma as_argument_error_cases:
  assumes "raises_only_ParsingError p"
  shows "(\<exists>m. as_argument_error (p rs) = Inl (ParameterArgumentParsingError m))
           \<or> (\<exists>r. as_argument_error (p rs) = Inr r)"
proof (cases "p rs")
  case (Inl e)
  with assms obtain m where "e = ParsingError m"
    by (auto simp: raises_only_ParsingError_def)
  with Inl show ?thesis by (simp add: as_argument_error_def)
next
  case (Inr r)
  then show ?thesis by (simp add: as_argument_error_def)
qed


lemma parse_whitespace_eq:
  "parse_whitespace rs =
     (if takeWhile is_SP rs = [] then Inl (ParsingError ''whitespace'')
      else Inr (dropWhile is_SP rs))"
  by (simp add: parse_whitespace_def consume_or_def consume_def re_plus_def Let_def
      dropWhile_eq_drop)

lemma parse_nullspace_eq: "parse_nullspace rs = Inr (dropWhile is_SP rs)"
  by (simp add: parse_nullspace_def consume_or_def consume_def re_star_def dropWhile_eq_drop)

lemma parse_CRLF_eq:
  "parse_CRLF rs = (case rs of c # cs \<Rightarrow> if c = LF then Inr cs else Inl (ParsingError ''CRLF'')
                    | [] \<Rightarrow> Inl (ParsingError ''CRLF''))"
  by (simp add: parse_CRLF_def consume_or_def consume_lit split: list.splits)

lemma keyword2_head:
  "as_message_error name
     (parse_seq [consume (re_lit w1), parse_whitespace, consume (re_lit w2)] ms) =
   (if keyword2_matches w1 w2 ms
    then Inr (drop (length w2) (dropWhile is_SP (drop (length w1) ms)))
    else Inl (MessageParsingError
           (if prefix w1 ms \<and> takeWhile is_SP (drop (length w1) ms) = []
            then ''whitespace'' else name)))"
  by (simp add: as_message_error_def consume_lit parse_whitespace_eq keyword2_matches_def)

lemma command_tail_only:
  "raises_only_ParsingError (parse_seq [parse_nullspace, parse_path, parse_nullspace, parse_CRLF])"
  by (rule parse_seq_only) (simp add: lexical_only parse_path_only)

lemma parse_mail_from_cmd_unmatched:
  "\<not> keyword2_matches ''MAIL'' ''FROM:'' ms \<Longrightarrow> \<exists>m. parse_mail_from_cmd ms = Inl (MessageParsingError m)"
  by (simp add: parse_mail_from_cmd_def keyword2_head del: parse_seq.simps)

lemma parse_mail_from_cmd_matched:
  assumes "keyword2_matches ''MAIL'' ''FROM:'' ms"
  shows "(\<exists>m. parse_mail_from_cmd ms = Inl (ParameterArgumentParsingError m))
           \<or> (\<exists>r. parse_mail_from_cmd ms = Inr r)"
  using assms as_argument_error_cases [OF command_tail_only]
  by (simp add: parse_mail_from_cmd_def keyword2_head parse_reverse_path_def del: parse_seq.simps)

lemma parse_rcpt_to_cmd_unmatched:
  "\<not> keyword2_matches ''RCPT'' ''TO:'' ms \<Longrightarrow> \<exists>m. parse_rcpt_to_cmd ms = Inl (MessageParsingError m)"
  by (simp add: parse_rcpt_to_cmd_def keyword2_head del: parse_seq.simps)

lemma parse_rcpt_to_cmd_matched:
  assumes "keyword2_matches ''RCPT'' ''TO:'' ms"
  shows "(\<exists>m. parse_rcpt_to_cmd ms = Inl (ParameterArgumentParsingError m))
           \<or> (\<exists>r. parse_rcpt_to_cmd ms = Inr r)"
  using assms as_argument_error_cases [OF command_tail_only]
  by (simp add: parse_rcpt_to_cmd_def keyword2_head parse_forward_path_def del: parse_seq.simps)

lemma helo_tail_only:
  "raises_only_ParsingError
     (parse_seq [parse_whitespace, parse_arbitrary_text, parse_nullspace, parse_CRLF])"
  by (rule parse_seq_only) (simp add: lexical_only)

lemma data_tail_only: "raises_only_ParsingError (parse_seq [parse_nullspace, parse_CRLF])"
  by (rule parse_seq_only) (simp add: lexical_only)

lemma parse_helo_msg_unmatched:
  "\<not> keyword_matches ''HELO'' ms \<Longrightarrow> parse_helo_msg ms = Inl (MessageParsingError ''helo-msg'')"
  by (auto simp: parse_helo_msg_def consume_lit keyword_matches_def)

lemma parse_helo_msg_matched:
  assumes "keyword_matches ''HELO'' ms"
  shows "(\<exists>m. parse_helo_msg ms = Inl (ParameterArgumentParsingError m))
           \<or> (\<exists>r. parse_helo_msg ms = Inr r)"
  using assms as_argument_error_cases [OF helo_tail_only]
  by (simp add: parse_helo_msg_def consume_lit keyword_matches_def del: parse_seq.simps)

lemma parse_data_cmd_unmatched:
  "\<not> keyword_matches ''DATA'' ms \<Longrightarrow> parse_data_cmd ms = Inl (MessageParsingError ''data-cmd'')"
  by (auto simp: parse_data_cmd_def consume_lit keyword_matches_def)

lemma parse_data_cmd_matched:
  assumes "keyword_matches ''DATA'' ms"
  shows "(\<exists>m. parse_data_cmd ms = Inl (ParameterArgumentParsingError m))
           \<or> (\<exists>r. parse_data_cmd ms = Inr r)"
  using assms as_argument_error_cases [OF data_tail_only]
  by (simp add: parse_data_cmd_def consume_lit keyword_matches_def del: parse_seq.simps)

lemma parse_quit_cmd_unmatched:
  "\<not> keyword_matches ''QUIT'' ms \<Longrightarrow> parse_quit_cmd ms = Inl (MessageParsingError ''quit-cmd'')"
  by (auto simp: parse_quit_cmd_def consume_lit keyword_matches_def)

lemma parse_quit_cmd_matched:
  assumes "keyword_matches ''QUIT'' ms"
  shows "(\<exists>m. parse_quit_cmd ms = Inl (ParameterArgumentParsingError m))
           \<or> (\<exists>r. parse_quit_cmd ms = Inr r)"
  using assms as_argument_error_cases [OF data_tail_only]
  by (simp add: parse_quit_cmd_def consume_lit keyword_matches_def del: parse_seq.simps)

lemma attempt_unmatched:
  "parse ms = Inl (MessageParsingError m) \<Longrightarrow> attempt parse t ms otherwise = otherwise"
  by (simp add: attempt_def)

lemma attempt_matched:
  "(\<exists>m. parse ms = Inl (ParameterArgumentParsingError m)) \<or> (\<exists>r. parse ms = Inr r) \<Longrightarrow>
   attempt parse t ms otherwise =
     Inr \<lparr>msg_type = t, param_arg_error = (\<exists>m. parse ms = Inl (ParameterArgumentParsingError m))\<rparr>"
  by (auto simp: attempt_def)

lemma Message_classifies:
  "\<exists>b. Message ms = Inr \<lparr>msg_type = first_matching_keyword ms, param_arg_error = b\<rparr>
       \<and> (first_matching_keyword ms = UNRECOGNIZED \<longrightarrow> \<not> b)"
proof -
  consider (helo) "keyword_matches ''HELO'' ms"
    | (mail) "\<not> keyword_matches ''HELO'' ms" "keyword2_matches ''MAIL'' ''FROM:'' ms"
    | (rcpt) "\<not> keyword_matches ''HELO'' ms" "\<not> keyword2_matches ''MAIL'' ''FROM:'' ms"
        "keyword2_matches ''RCPT'' ''TO:'' ms"
    | (data) "\<not> keyword_matches ''HELO'' ms" "\<not> keyword2_matches ''MAIL'' ''FROM:'' ms"
        "\<not> keyword2_matches ''RCPT'' ''TO:'' ms" "keyword_matches ''DATA'' ms"
    | (quit) "\<not> keyword_matches ''HELO'' ms" "\<not> keyword2_matches ''MAIL'' ''FROM:'' ms"
        "\<not> keyword2_matches ''RCPT'' ''TO:'' ms" "\<not> keyword_matches ''DATA'' ms"
        "keyword_matches ''QUIT'' ms"
    | (none) "\<not> keyword_matches ''HELO'' ms" "\<not> keyword2_matches ''MAIL'' ''FROM:'' ms"
        "\<not> keyword2_matches ''RCPT'' ''TO:'' ms" "\<not> keyword_matches ''DATA'' ms"
        "\<not> keyword_matches ''QUIT'' ms"
    by blast
  then show ?thesis
  proof cases
    case helo
    then show ?thesis
      using attempt_matched [of parse_helo_msg ms, OF parse_helo_msg_matched [OF helo]]
      by (simp add: Message_def first_matching_keyword_def)
  next
    case mail
    obtain m1 where 1: "parse_helo_msg ms = Inl (MessageParsingError m1)"
      using parse_helo_msg_unmatched [OF mail(1)] by blast
    show ?thesis
      using mail attempt_matched [of parse_mail_from_cmd ms, OF parse_mail_from_cmd_matched [OF mail(2)]]
      by (simp add: Message_def first_matching_keyword_def attempt_unmatched [of parse_helo_msg ms, OF 1])
  next
    case rcpt
    obtain m1 where 1: "parse_helo_msg ms = Inl (MessageParsingError m1)"
      using parse_helo_msg_unmatched [OF rcpt(1)] by blast
    obtain m2 where 2: "parse_mail_from_cmd ms = Inl (MessageParsingError m2)"
      using parse_mail_from_cmd_unmatched [OF rcpt(2)] by blast
    show ?thesis
      using rcpt attempt_matched [of parse_rcpt_to_cmd ms, OF parse_rcpt_to_cmd_matched [OF rcpt(3)]]
      by (simp add: Message_def first_matching_keyword_def attempt_unmatched [of parse_helo_msg ms, OF 1]
          attempt_unmatched [of parse_mail_from_cmd ms, OF 2])
  next
    case data
    obtain m1 where 1: "parse_helo_msg ms = Inl (MessageParsingError m1)"
      using parse_helo_msg_unmatched [OF data(1)] by blast
    obtain m2 where 2: "parse_mail_from_cmd ms = Inl (MessageParsingError m2)"
      using parse_mail_from_cmd_unmatched [OF data(2)] by blast
    obtain m3 where 3: "parse_rcpt_to_cmd ms = Inl (MessageParsingError m3)"
      using parse_rcpt_to_cmd_unmatched [OF data(3)] by blast
    show ?thesis
      using data attempt_matched [of parse_data_cmd ms, OF parse_data_cmd_matched [OF data(4)]]
      by (simp add: Message_def first_matching_keyword_def attempt_unmatched [of parse_helo_msg ms, OF 1]
          attempt_unmatched [of parse_mail_from_cmd ms, OF 2] attempt_unmatched [of parse_rcpt_to_cmd ms, OF 3])
  next
    case quit
    obtain m1 where 1: "parse_helo_msg ms = Inl (MessageParsingError m1)"
      using parse_helo_msg_unmatched [OF quit(1)] by blast
    obtain m2 where 2: "parse_mail_from_cmd ms = Inl (MessageParsingError m2)"
      using parse_mail_from_cmd_unmatched [OF quit(2)] by blast
    obtain m3 where 3: "parse_rcpt_to_cmd ms = Inl (MessageParsingError m3)"
      using parse_rcpt_to_cmd_unmatched [OF quit(3)] by blast
    obtain m4 where 4: "parse_data_cmd ms = Inl (MessageParsingError m4)"
      using parse_data_cmd_unmatched [OF quit(4)] by blast
    show ?thesis
      using quit attempt_matched [of parse_quit_cmd ms, OF parse_quit_cmd_matched [OF quit(5)]]
      by (simp add: Message_def first_matching_keyword_def attempt_unmatched [of parse_helo_msg ms, OF 1]
          attempt_unmatched [of parse_mail_from_cmd ms, OF 2] attempt_unmatched [of parse_rcpt_to_cmd ms, OF 3] attempt_unmatched [of parse_data_cmd ms, OF 4])
  next
    case none
    obtain m1 where 1: "parse_helo_msg ms = Inl (MessageParsingError m1)"
      using parse_helo_msg_unmatched [OF none(1)] by blast
    obtain m2 where 2: "parse_mail_from_cmd ms = Inl (MessageParsingError m2)"
      using parse_mail_from_cmd_unmatched [OF none(2)] by blast
    obtain m3 where 3: "parse_rcpt_to_cmd ms = Inl (MessageParsingError m3)"
      using parse_rcpt_to_cmd_unmatched [OF none(3)] by blast
    obtain m4 where 4: "parse_data_cmd ms = Inl (MessageParsingError m4)"
      using parse_data_cmd_unmatched [OF none(4)] by blast
    obtain m5 where 5: "parse_quit_cmd ms = Inl (MessageParsingError m5)"
      using parse_quit_cmd_unmatched [OF none(5)] by blast
    show ?thesis
      using none
      by (auto simp add: Message_def first_matching_keyword_def attempt_unmatched [of parse_helo_msg ms, OF 1]
          attempt_unmatched [of parse_mail_from_cmd ms, OF 2] attempt_unmatched [of parse_rcpt_to_cmd ms, OF 3] attempt_unmatched [of parse_data_cmd ms, OF 4]
          attempt_unmatched [of parse_quit_cmd ms, OF 5])
  qed
qed

subsection \<open>Particular lines\<close>

lemma takeWhile_SP_run:
  "set ws \<subseteq> {SP, TAB} \<Longrightarrow> \<not> is_SP c \<Longrightarrow> takeWhile is_SP (ws @ c # rest) = ws"
  by (induction ws) (auto simp: is_SP_def)

lemma dropWhile_SP_run:
  "set ws \<subseteq> {SP, TAB} \<Longrightarrow> \<not> is_SP c \<Longrightarrow> dropWhile is_SP (ws @ c # rest) = c # rest"
  by (induction ws) (auto simp: is_SP_def)

lemma LF_classes [simp]: "\<not> is_SP LF" "\<not> is_text_char LF" "\<not> is_string_char LF"
  by (simp_all add: is_SP_def is_text_char_def is_string_char_def special_or_space_def
      LF_def SP_def TAB_def)

lemma keyword_ends_run: "set ws \<subseteq> {SP, TAB} \<Longrightarrow> keyword_ends (ws @ LF # rest)"
  by (cases ws) (auto simp: keyword_ends_def is_empty_def get_first_char_def)

lemma parse_arbitrary_text_eq:
  "parse_arbitrary_text rs =
     (if takeWhile is_text_char rs = [] then Inl (ParsingError ''arbitrary-text'')
      else Inr (dropWhile is_text_char rs))"
  by (simp add: parse_arbitrary_text_def consume_or_def consume_def re_plus_def Let_def
      dropWhile_eq_drop)

lemma parse_helo_msg_bare:
  assumes "set ws \<subseteq> {SP, TAB}"
  shows "parse_helo_msg (''HELO'' @ ws @ [LF]) =
           Inl (ParameterArgumentParsingError
                  (if ws = [] then ''whitespace'' else ''arbitrary-text''))"
  using assms keyword_ends_run [OF assms, of "[]"]
  by (simp add: parse_helo_msg_def consume_lit parse_whitespace_eq parse_arbitrary_text_eq
      takeWhile_SP_run dropWhile_SP_run as_argument_error_def)

lemma prefix_same_length: "prefix k (k' @ rest) \<Longrightarrow> length k = length k' \<Longrightarrow> k = k'"
  by (auto simp: prefix_def append_eq_append_conv)


lemma one_word_other:
  assumes "k \<noteq> k'" "length k = length k'"
  shows "\<not> keyword_matches k (k' @ rest)"
  using assms by (auto simp: keyword_matches_def dest: prefix_same_length)

lemma two_word_other:
  assumes "w1 \<noteq> k'" "length w1 = length k'"
  shows "\<not> keyword2_matches w1 w2 (k' @ rest)"
  using assms by (auto simp: keyword2_matches_def dest: prefix_same_length)


lemma two_word_matched:
  assumes "ws \<noteq> []" "set ws \<subseteq> {SP, TAB}" "w2 \<noteq> []" "\<not> is_SP (hd w2)"
  shows "keyword2_matches w1 w2 (w1 @ ws @ w2 @ rest)"
proof -
  obtain c cs where w2: "w2 = c # cs" using assms(3) by (cases w2) auto
  with assms(4) have c: "\<not> is_SP c" by simp
  show ?thesis
    using assms(1) takeWhile_SP_run [OF assms(2) c, of "cs @ rest"]
      dropWhile_SP_run [OF assms(2) c, of "cs @ rest"]
    by (simp add: keyword2_matches_def w2)
qed







lemma first_MAIL_FROM:
  assumes "ws \<noteq> []" "set ws \<subseteq> {SP, TAB}"
  shows "first_matching_keyword (''MAIL'' @ ws @ ''FROM:'' @ rest) = MAIL_FROM"
  unfolding first_matching_keyword_def
  using two_word_matched [OF assms, of "''FROM:''" "''MAIL''" rest]
    one_word_other [of "''HELO''" "''MAIL''" "ws @ ''FROM:'' @ rest"]
  by (simp add: is_SP_def SP_def TAB_def)

lemma first_RCPT_TO:
  assumes "ws \<noteq> []" "set ws \<subseteq> {SP, TAB}"
  shows "first_matching_keyword (''RCPT'' @ ws @ ''TO:'' @ rest) = RCPT_TO"
  unfolding first_matching_keyword_def
  using two_word_matched [OF assms, of "''TO:''" "''RCPT''" rest]
    one_word_other [of "''HELO''" "''RCPT''" "ws @ ''TO:'' @ rest"]
    two_word_other [of "''MAIL''" "''RCPT''" "''FROM:''" "ws @ ''TO:'' @ rest"]
  by (simp add: is_SP_def SP_def TAB_def)






lemmas parser_simps =
  Message_def attempt_def parse_helo_msg_def parse_mail_from_cmd_def
  parse_rcpt_to_cmd_def parse_data_cmd_def parse_quit_cmd_def consume_lit
  as_message_error_def keyword_ends_def is_empty_def get_first_char_def LF_def
  parse_nullspace_eq parse_CRLF_eq parse_whitespace_eq parse_arbitrary_text_eq
  as_argument_error_def is_SP_def SP_def TAB_def
  parse_reverse_path_def parse_forward_path_def parse_path_def parse_mailbox_def
  parse_local_part_def parse_string_def parse_domain_def consume_or_def consume_def
  re_plus_def re_star_def re_lit_def re_domain_def re_element_def
  is_string_char_def special_or_space_def is_text_char_def is_letter_def is_let_dig_def


subsection \<open>Claims about the classifier\<close>

text \<open>
  Claim C3, as amended.  The claim says that \<^verbatim>\<open>HELO\<close> followed by only optional
  whitespace and the line terminator classifies as a HELO message with valid
  arguments.  The grammar of \<^verbatim>\<open>parse_helo_msg\<close> asks for whitespace and a
  non-empty text after the keyword, so such a line is a HELO message whose
  arguments are \<^emph>\<open>not\<close> valid: for every run \<open>ws\<close> of spaces and tabs, the line
  \<^verbatim>\<open>HELO\<close>, \<open>ws\<close>, newline classifies as \<open>HELO\<close> with the parameter/argument
  error set.
\<close>

theorem bare_helo_has_argument_error:
  "set ws \<subseteq> {SP, TAB} \<Longrightarrow>
   Message (''HELO'' @ ws @ [LF]) = Inr \<lparr>msg_type = HELO, param_arg_error = True\<rparr>"
  using parse_helo_msg_bare [of ws] by (simp add: Message_def attempt_def)

theorem bare_helo_has_argument_error_witness:
  "set ''  '' \<subseteq> {SP, TAB} \<and>
   Message ''HELO  \<newline>'' = Inr \<lparr>msg_type = HELO, param_arg_error = True\<rparr>"
  using bare_helo_has_argument_error [of "''  ''"] by (simp add: SP_def LF_def)

text \<open>
  Claim C3 as stated fails at the line \<^verbatim>\<open>HELO\<close>, newline: it is not classified as
  a HELO message with valid arguments.
\<close>

theorem bare_helo_counterexample:
  "Message ''HELO\<newline>'' = Inr \<lparr>msg_type = HELO, param_arg_error = True\<rparr> \<and>
   \<not> has_valid_params_args \<lparr>msg_type = HELO, param_arg_error = True\<rparr>"
  using parse_helo_msg_bare [of "[]"]
  by (simp add: Message_def attempt_def has_valid_params_args_def LF_def)

text \<open>
  Claim C5.  Classification is total: for every input string the constructor
  returns a message (no exception passes the classifier), and the type it assigns
  is the one of the first command, in the order HELO, MAIL FROM, RCPT TO, DATA,
  QUIT, whose keyword matches the line, or \<open>UNRECOGNIZED\<close> when none does.
\<close>

theorem classification_total:
  "\<exists>m. Message ms = Inr m \<and> msg_type m = first_matching_keyword ms"
  using Message_classifies [of ms] by auto




text \<open>
  Claim C10.  A line classified as unrecognized has valid parameters and
  arguments: the error flag is set only together with a recognized type.
\<close>

theorem unrecognized_has_valid_params_args:
  "Message ms = Inr m \<Longrightarrow> msg_type m = UNRECOGNIZED \<Longrightarrow> has_valid_params_args m"
  using Message_classifies [of ms] by (auto simp: has_valid_params_args_def)

theorem unrecognized_has_valid_params_args_witness:
  "Message ''HELOX'' = Inr \<lparr>msg_type = UNRECOGNIZED, param_arg_error = False\<rparr> \<and>
   msg_type \<lparr>msg_type = UNRECOGNIZED, param_arg_error = False\<rparr> = UNRECOGNIZED \<and>
   has_valid_params_args \<lparr>msg_type = UNRECOGNIZED, param_arg_error = False\<rparr>"
proof -
  have m: "Message ''HELOX'' = Inr \<lparr>msg_type = UNRECOGNIZED, param_arg_error = False\<rparr>"
    by (simp add: Message_def attempt_def parse_helo_msg_def parse_mail_from_cmd_def
        parse_rcpt_to_cmd_def parse_data_cmd_def parse_quit_cmd_def consume_lit
        keyword_ends_def is_empty_def get_first_char_def as_message_error_def SP_def TAB_def
        LF_def)
  show ?thesis
    using m unrecognized_has_valid_params_args [OF m] by simp
qed

subsection \<open>Paths of valid mailboxes\<close>

lemma takeWhile_run:
  "list_all P xs \<Longrightarrow> \<not> P c \<Longrightarrow> takeWhile P (xs @ c # r) = xs"
  by (induction xs) auto


lemma re_element_valid:
  "valid_element e \<Longrightarrow> \<not> is_let_dig c \<Longrightarrow> re_element (e @ c # r) = Some (length e)"
  by (cases e) (simp_all add: valid_element_def re_element_def takeWhile_run)

lemma dot_not_let_dig [simp]: "\<not> is_let_dig (CHR ''.'')"
  by (simp add: is_let_dig_def is_letter_def)

lemma gt_not_let_dig [simp]: "\<not> is_let_dig (CHR ''>'')"
  by (simp add: is_let_dig_def is_letter_def)

lemma re_dot_elements_valid:
  "list_all valid_element es \<Longrightarrow> \<not> is_let_dig c \<Longrightarrow> c \<noteq> CHR ''.'' \<Longrightarrow>
   re_dot_elements (concat (map (\<lambda>e. CHR ''.'' # e) es) @ c # r) =
     length (concat (map (\<lambda>e. CHR ''.'' # e) es))"
proof (induction es)
  case Nil
  then show ?case by simp
next
  case (Cons e es)
  let ?tail = "concat (map (\<lambda>e. CHR ''.'' # e) es) @ c # r"
  have e: "valid_element e" and es: "list_all valid_element es" using Cons.prems(1) by simp_all
  have next_char: "\<exists>d r'. ?tail = d # r' \<and> \<not> is_let_dig d"
    using Cons.prems(2) by (cases es) auto
  then obtain d r' where t: "?tail = d # r'" and d: "\<not> is_let_dig d" by blast
  have "re_element (e @ ?tail) = Some (length e)"
    unfolding t by (rule re_element_valid [OF e d])
  moreover have "re_dot_elements ?tail = length (concat (map (\<lambda>e. CHR ''.'' # e) es))"
    by (rule Cons.IH [OF es Cons.prems(2,3)])
  ultimately show ?case by simp
qed

lemma dotted_Cons: "dotted (e # es) = e @ concat (map (\<lambda>e. CHR ''.'' # e) es)"
  by (induction es arbitrary: e) auto

lemma re_domain_valid:
  assumes "valid_domain_elements es" "\<not> is_let_dig c" "c \<noteq> CHR ''.''"
  shows "re_domain (dotted es @ c # r) = Some (length (dotted es))"
proof -
  obtain e es' where es: "es = e # es'" using assms(1) by (cases es) (auto simp: valid_domain_elements_def)
  have e: "valid_element e" and es': "list_all valid_element es'"
    using assms(1) by (simp_all add: valid_domain_elements_def es)
  let ?tail = "concat (map (\<lambda>e. CHR ''.'' # e) es') @ c # r"
  obtain d r' where t: "?tail = d # r'" and d: "\<not> is_let_dig d"
    using assms(2) by (cases es') auto
  have 1: "re_element (e @ ?tail) = Some (length e)"
    unfolding t by (rule re_element_valid [OF e d])
  have 2: "re_dot_elements ?tail = length (concat (map (\<lambda>e. CHR ''.'' # e) es'))"
    by (rule re_dot_elements_valid [OF es' assms(2,3)])
  show ?thesis
    using 1 2 by (simp add: re_domain_def es dotted_Cons)
qed

lemma parse_domain_valid:
  assumes "valid_domain_elements es" "\<not> is_let_dig c" "c \<noteq> CHR ''.''"
  shows "parse_domain (dotted es @ c # r) = Inr (c # r)"
  using re_domain_valid [OF assms, of r]
  by (simp add: parse_domain_def consume_or_def consume_def)

lemma text_char_not_LF: "is_text_char c \<Longrightarrow> c \<noteq> LF"
  by (auto simp: is_text_char_def LF_def)

lemma local_char_is_string_char:
  assumes "is_text_char c" "c \<notin> set special" "\<not> is_SP c"
  shows "is_string_char c"
proof -
  have "c \<noteq> LF" using assms(1) by (rule text_char_not_LF)
  moreover have "c \<noteq> SP" "c \<noteq> TAB" using assms(3) by (simp_all add: is_SP_def)
  ultimately show ?thesis
    using assms(2) by (simp add: is_string_char_def special_or_space_def special_def)
qed

lemma valid_local_part_string:
  "valid_local_part l \<Longrightarrow> list_all is_string_char l"
  unfolding valid_local_part_def list_all_iff
  by (blast intro: local_char_is_string_char)

lemma at_not_string_char [simp]: "\<not> is_string_char (CHR ''@'')"
  by (simp add: is_string_char_def special_or_space_def)

lemma parse_local_part_valid:
  assumes "valid_local_part l"
  shows "parse_local_part (l @ CHR ''@'' # r) = Inr (CHR ''@'' # r)"
proof -
  have "takeWhile is_string_char (l @ CHR ''@'' # r) = l"
    by (rule takeWhile_run [OF valid_local_part_string [OF assms]]) simp
  moreover have "l \<noteq> []" using assms by (simp add: valid_local_part_def)
  ultimately show ?thesis
    by (simp add: parse_local_part_def parse_string_def consume_or_def consume_def
        re_plus_def)
qed

lemma parse_mailbox_valid:
  assumes "valid_local_part l" "valid_domain_elements es" "\<not> is_let_dig c" "c \<noteq> CHR ''.''"
  shows "parse_mailbox (l @ CHR ''@'' # dotted es @ c # r) = Inr (c # r)"
  using parse_local_part_valid [OF assms(1), of "dotted es @ c # r"]
    parse_domain_valid [OF assms(2-4), of r]
  by (simp add: parse_mailbox_def consume_or_def consume_lit)

text \<open>
  Claim C7.  For a valid local part \<open>l\<close> and a domain made of the valid elements
  \<open>es\<close>, the path production accepts the rendered path \<^verbatim>\<open><l@domain>\<close> and
  consumes all of it; inside it the mailbox production consumes exactly
  \<^verbatim>\<open>l@domain\<close>, the local part exactly \<open>l\<close> and the domain production exactly
  the domain, so the text recognized as the mailbox is the mailbox that was
  rendered.
\<close>

theorem path_round_trip:
  assumes "valid_local_part l" and "valid_domain_elements es"
  shows "parse_path (''<'' @ l @ ''@'' @ dotted es @ ''>'') = Inr [] \<and>
         parse_mailbox (l @ ''@'' @ dotted es @ ''>'') = Inr ''>'' \<and>
         parse_local_part (l @ ''@'' @ dotted es @ ''>'') = Inr (''@'' @ dotted es @ ''>'') \<and>
         parse_domain (dotted es @ ''>'') = Inr ''>''"
  using parse_mailbox_valid [OF assms, of "CHR ''>''" "[]"]
    parse_local_part_valid [OF assms(1), of "dotted es @ ''>''"]
    parse_domain_valid [OF assms(2), of "CHR ''>''" "[]"]
  by (simp add: parse_path_def consume_or_def consume_lit)

theorem path_round_trip_witness:
  "valid_local_part ''jdoe+x'' \<and>
   valid_domain_elements [''cs'', ''unc1'', ''edu''] \<and>
   parse_path ''<jdoe+x@cs.unc1.edu>'' = Inr [] \<and>
   parse_mailbox ''jdoe+x@cs.unc1.edu>'' = Inr ''>'' \<and>
   parse_local_part ''jdoe+x@cs.unc1.edu>'' = Inr ''@cs.unc1.edu>'' \<and>
   parse_domain ''cs.unc1.edu>'' = Inr ''>''"
proof -
  have l: "valid_local_part ''jdoe+x''"
    by (simp add: valid_local_part_def is_text_char_def special_def is_SP_def SP_def TAB_def)
  have es: "valid_domain_elements [''cs'', ''unc1'', ''edu'']"
    by (simp add: valid_domain_elements_def valid_element_def is_letter_def is_let_dig_def)
  show ?thesis
    using l es path_round_trip [OF l es] by simp
qed


section \<open>Properties of the session\<close>

subsection \<open>What an accepted path looks like\<close>










subsection \<open>The searches on accepted command lines\<close>
















subsection \<open>Steps of the state machine\<close>

lemma send_msg_ok:
  "can_send c \<Longrightarrow> send_msg msg c = (None, c\<lparr>sent := sent c @ [msg]\<rparr>)"
  by (simp add: send_msg_def can_send_def)

lemma send_then_ok:
  "can_send (connection_socket s) \<Longrightarrow>
   send_then msg rest s =
     rest (s\<lparr>connection_socket := (connection_socket s)\<lparr>sent := sent (connection_socket s) @ [msg]\<rparr>\<rparr>)"
  by (simp add: send_then_def send_msg_ok)


lemma continue_email:
  "continue (s\<lparr>connection_socket := c\<rparr>) = (Continue, s') \<Longrightarrow> current_email s' = current_email s"
  by (auto simp: continue_def)

lemma goto_email:
  "goto st (s\<lparr>connection_socket := c\<rparr>) = (Continue, s') \<Longrightarrow> current_email s' = current_email s"
  by (auto simp: goto_def)

lemma close_and_break_not_Continue:
  "close_and_break s \<noteq> (Continue, s')"
  by (simp add: close_and_break_def)



lemmas email_updates = set_reverse_path_def add_forward_path_def add_message_line_def Email_def




lemma set_of_values_set [simp]: "set (set_of_values rank xs) = set xs"
  by (simp add: set_of_values_def)




lemma file_accepts_contents [simp]:
  "file_accepts (fs\<lparr>contents := c\<rparr>) path ls = file_accepts fs path ls"
  by (simp add: file_accepts_def)


subsection \<open>Lines of a text\<close>

lemma lines_from_unfold:
  "lines_from cur xs =
     (if LF \<in> set xs
      then (cur @ takeWhile (\<lambda>c. c \<noteq> LF) xs @ [LF]) #
             lines_from [] (tl (dropWhile (\<lambda>c. c \<noteq> LF) xs))
      else [])"
  by (induction xs arbitrary: cur) auto

lemma rest_from_unfold:
  "rest_from cur xs =
     (if LF \<in> set xs then rest_from [] (tl (dropWhile (\<lambda>c. c \<noteq> LF) xs)) else cur @ xs)"
  by (induction xs arbitrary: cur) auto

lemma lines_from_append:
  "lines_from cur (xs @ ys) = lines_from cur xs @ lines_from (rest_from cur xs) ys"
  by (induction xs arbitrary: cur) auto

lemma rest_from_append:
  "rest_from cur (xs @ ys) = rest_from (rest_from cur xs) ys"
  by (induction xs arbitrary: cur) auto

lemma lines_from_acc:
  "LF \<notin> set cur \<Longrightarrow> lines_from acc (cur @ ys) = lines_from (acc @ cur) ys"
  by (induction cur arbitrary: acc) auto

lemma rest_from_acc:
  "LF \<notin> set cur \<Longrightarrow> rest_from acc (cur @ ys) = rest_from (acc @ cur) ys"
  by (induction cur arbitrary: acc) auto

lemma lines_from_cur:
  "LF \<notin> set cur \<Longrightarrow> lines_from [] (cur @ ys) = lines_from cur ys"
  using lines_from_acc [of cur "[]" ys] by simp

lemma rest_from_cur:
  "LF \<notin> set cur \<Longrightarrow> rest_from [] (cur @ ys) = rest_from cur ys"
  using rest_from_acc [of cur "[]" ys] by simp

lemma consume_and_get_msg_shorter:
  assumes "LF \<in> set buf"
  shows "length (snd (consume_and_get_msg buf)) < length buf"
proof -
  have "length (dropWhile (\<lambda>c. c \<noteq> LF) buf) \<le> length buf" by (rule length_dropWhile_le)
  moreover have "buf \<noteq> []" using assms by auto
  ultimately have "length (tl (dropWhile (\<lambda>c. c \<noteq> LF) buf)) < length buf"
    by (cases buf) auto
  then show ?thesis by (simp add: consume_and_get_msg_def)
qed

lemma rest_from_no_LF:
  "LF \<notin> set cur \<Longrightarrow> LF \<notin> set (rest_from cur xs)"
  by (induction xs arbitrary: cur) auto

lemma unterminated_rest_no_LF: "LF \<notin> set (unterminated_rest text)"
  by (simp add: unterminated_rest_def rest_from_no_LF)

lemma complete_lines_append:
  "complete_lines (xs @ ys) = complete_lines xs @ complete_lines (unterminated_rest xs @ ys)"
proof -
  have "LF \<notin> set (rest_from [] xs)" by (simp add: rest_from_no_LF)
  then have "lines_from [] (rest_from [] xs @ ys) = lines_from (rest_from [] xs) ys"
    by (rule lines_from_cur)
  then show ?thesis
    by (simp only: complete_lines_def unterminated_rest_def lines_from_append [of "[]" xs ys])
qed

lemma unterminated_rest_append:
  "unterminated_rest (xs @ ys) = unterminated_rest (unterminated_rest xs @ ys)"
proof -
  have "LF \<notin> set (rest_from [] xs)" by (simp add: rest_from_no_LF)
  then have "rest_from [] (rest_from [] xs @ ys) = rest_from (rest_from [] xs) ys"
    by (rule rest_from_cur)
  then show ?thesis
    by (simp only: unterminated_rest_def rest_from_append [of "[]" xs ys])
qed

lemma complete_lines_no_LF: "LF \<notin> set buf \<Longrightarrow> complete_lines buf = []"
  by (simp add: complete_lines_def lines_from_unfold [of "[]" buf])

lemma unterminated_rest_no_LF_id: "LF \<notin> set buf \<Longrightarrow> unterminated_rest buf = buf"
  by (simp add: unterminated_rest_def rest_from_unfold [of "[]" buf])

lemma complete_lines_first:
  "LF \<in> set buf \<Longrightarrow>
   complete_lines buf = fst (consume_and_get_msg buf) # complete_lines (snd (consume_and_get_msg buf))"
  by (simp add: complete_lines_def consume_and_get_msg_def lines_from_unfold [of "[]" buf])

lemma unterminated_rest_first:
  "LF \<in> set buf \<Longrightarrow> unterminated_rest buf = unterminated_rest (snd (consume_and_get_msg buf))"
  by (simp add: unterminated_rest_def consume_and_get_msg_def rest_from_unfold [of "[]" buf])

subsection \<open>The loop handles the lines of its input\<close>

lemma process_messages_append:
  "process_messages env (xs @ ys) s =
     (case process_messages env xs s of
        (Continue, s') \<Rightarrow> process_messages env ys s'
      | (Break, s') \<Rightarrow> (Break, s')
      | (Raise e, s') \<Rightarrow> (Raise e, s'))"
  by (induction xs arbitrary: s) (auto split: prod.splits signal.splits)

lemma session_loop_drain:
  "session_loop env s buf rs =
     after_lines (process_messages env (complete_lines buf) s)
       (\<lambda>s'. session_loop env s' (unterminated_rest buf) rs)"
proof (induction "length buf" arbitrary: s buf rule: less_induct)
  case less
  show ?case
  proof (cases "LF \<in> set buf")
    case False
    then show ?thesis
      by (simp add: complete_lines_no_LF unterminated_rest_no_LF_id after_lines_def)
  next
    case True
    obtain msg_str buf' where c: "consume_and_get_msg buf = (msg_str, buf')"
      by (cases "consume_and_get_msg buf")
    have shorter: "length buf' < length buf"
      using consume_and_get_msg_shorter [OF True] c by simp
    have lines: "complete_lines buf = msg_str # complete_lines buf'"
      and rest: "unterminated_rest buf = unterminated_rest buf'"
      using complete_lines_first [OF True] unterminated_rest_first [OF True] c by simp_all
    obtain sg s1 where p: "process_message env msg_str s = (sg, s1)"
      by (cases "process_message env msg_str s")
    show ?thesis
    proof (cases sg)
      case Continue
      have "session_loop env s buf rs = session_loop env s1 buf' rs"
        using True c p Continue
        by (subst session_loop.simps) (simp add: contains_complete_msg_def)
      also have "\<dots> = after_lines (process_messages env (complete_lines buf') s1)
                          (\<lambda>s'. session_loop env s' (unterminated_rest buf') rs)"
        by (rule less [OF shorter])
      finally show ?thesis using p Continue by (simp add: lines rest)
    next
      case Break
      then show ?thesis
        using True c p
        by (subst session_loop.simps) (simp add: contains_complete_msg_def lines after_lines_def)
    next
      case (Raise e)
      then show ?thesis
        using True c p
        by (subst session_loop.simps) (simp add: contains_complete_msg_def lines after_lines_def)
    qed
  qed
qed

lemma session_loop_by_lines:
  "session_loop env s buf (map Chunk chunks) =
     (case process_messages env (complete_lines (buf @ concat chunks)) s of
        (Continue, s') \<Rightarrow> Awaiting s' (unterminated_rest (buf @ concat chunks))
      | (Break, s') \<Rightarrow> Left s'
      | (Raise e, s') \<Rightarrow> leave e s')"
proof (induction chunks arbitrary: s buf)
  case Nil
  have "session_loop env s' (unterminated_rest buf) [] = Awaiting s' (unterminated_rest buf)" for s'
    by (subst session_loop.simps) (simp add: contains_complete_msg_def unterminated_rest_no_LF)
  then show ?case
    by (subst session_loop_drain) (simp add: after_lines_def split: prod.splits signal.splits)
next
  case (Cons c chunks)
  have step: "session_loop env s' (unterminated_rest buf) (map Chunk (c # chunks)) =
        session_loop env s' (unterminated_rest buf @ c) (map Chunk chunks)" for s'
    by (subst session_loop.simps)
      (simp add: contains_complete_msg_def unterminated_rest_no_LF recv_msg_def append_chunk_def)
  show ?case
    apply (subst session_loop_drain)
    apply (simp only: step Cons.IH)
    apply (simp add: after_lines_def complete_lines_append [of buf "c @ concat chunks"]
        unterminated_rest_append [of buf "c @ concat chunks"] process_messages_append
        split: prod.splits signal.splits)
    done
qed

subsection \<open>Claims about the session\<close>

lemma Message_EOMD_SEQ:
  "Message EOMD_SEQ = Inr \<lparr>msg_type = UNRECOGNIZED, param_arg_error = False\<rparr>"
  by (simp add: EOMD_SEQ_def Message_def attempt_def parse_helo_msg_def parse_mail_from_cmd_def
      parse_rcpt_to_cmd_def parse_data_cmd_def parse_quit_cmd_def consume_lit
      as_message_error_def)

lemma Message_QUIT:
  "Message ''QUIT\<newline>'' = Inr \<lparr>msg_type = QUIT, param_arg_error = False\<rparr>"
  by (simp add: Message_def attempt_def parse_helo_msg_def parse_mail_from_cmd_def
      parse_rcpt_to_cmd_def parse_data_cmd_def parse_quit_cmd_def consume_lit
      as_message_error_def keyword_ends_def is_empty_def get_first_char_def LF_def
      parse_nullspace_eq parse_CRLF_eq as_argument_error_def is_SP_def SP_def TAB_def)

lemma Message_QUIT_x:
  "Message ''QUIT x\<newline>'' = Inr \<lparr>msg_type = QUIT, param_arg_error = True\<rparr>"
  by (simp add: Message_def attempt_def parse_helo_msg_def parse_mail_from_cmd_def
      parse_rcpt_to_cmd_def parse_data_cmd_def parse_quit_cmd_def consume_lit
      as_message_error_def keyword_ends_def is_empty_def get_first_char_def LF_def
      parse_nullspace_eq parse_CRLF_eq as_argument_error_def is_SP_def SP_def TAB_def)

lemma data_line_is_kept:
  assumes "state s = STATE_4" and "l \<noteq> EOMD_SEQ"
  shows "process_message env l s =
           (Continue, s\<lparr>current_email := add_message_line l (current_email s)\<rparr>)"
  using assms by (simp add: process_message_def)

lemma QUIT_is_not_EOMD_SEQ: "Message l = Inr m \<Longrightarrow> msg_type m = QUIT \<Longrightarrow> l \<noteq> EOMD_SEQ"
  using Message_EOMD_SEQ by auto

text \<open>
  The branches of \<^verbatim>\<open>STATE_0\<close> to \<^verbatim>\<open>STATE_3\<close> handle QUIT alike, when the
  response can be sent: a line classified as a well-formed QUIT sends the closing
  response, closes the socket and leaves the loop; a line classified as a QUIT
  with malformed arguments sends the parameter-error response and changes nothing
  else, so the state stays.
\<close>

lemma quit_in_command_states:
  assumes "state s \<noteq> STATE_4"
    and "Message l = Inr m" and "msg_type m = QUIT" and "can_send (connection_socket s)"
  shows "process_message env l s =
     (if param_arg_error m then
        (Continue,
         s\<lparr>connection_socket := (connection_socket s)
              \<lparr>sent := sent (connection_socket s) @ [SYN_PARAM_ARG_ERR_501_MSG]\<rparr>\<rparr>)
      else
        (Break,
         s\<lparr>connection_socket := (connection_socket s)
              \<lparr>sent := sent (connection_socket s) @ [CLOS_CON_221_MSG env], closed := True\<rparr>\<rparr>))"
  using assms
  by (cases "state s")
    (simp_all add: process_message_def is_recognized_def is_helo_msg_def is_mail_from_cmd_def
      is_rcpt_to_cmd_def is_quit_cmd_def has_valid_params_args_def send_then_ok continue_def
      close_and_break_def close_connection_def)

lemma quit_in_command_states_example:
  "state (initial_session reliable_connection empty_files) \<noteq> STATE_4 \<and>
   Message ''QUIT\<newline>'' = Inr \<lparr>msg_type = QUIT, param_arg_error = False\<rparr> \<and>
   Message ''QUIT x\<newline>'' = Inr \<lparr>msg_type = QUIT, param_arg_error = True\<rparr> \<and>
   can_send reliable_connection \<and>
   process_message example_env ''QUIT\<newline>'' (initial_session reliable_connection empty_files) =
     (Break,
      \<lparr>state = STATE_0, current_email = Email,
         connection_socket =
           reliable_connection\<lparr>sent := [CLOS_CON_221_MSG example_env], closed := True\<rparr>,
         forward_files = empty_files\<rparr>) \<and>
   process_message example_env ''QUIT x\<newline>'' (initial_session reliable_connection empty_files) =
     (Continue,
      \<lparr>state = STATE_0, current_email = Email,
         connection_socket = reliable_connection\<lparr>sent := [SYN_PARAM_ARG_ERR_501_MSG]\<rparr>,
         forward_files = empty_files\<rparr>)"
proof -
  have st: "state (initial_session reliable_connection empty_files) \<noteq> STATE_4"
    by (simp add: initial_session_def)
  have c: "can_send (connection_socket (initial_session reliable_connection empty_files))"
    by (simp add: can_send_def initial_session_def reliable_connection_def)
  show ?thesis
    using st c Message_QUIT Message_QUIT_x
      quit_in_command_states [OF st Message_QUIT _ c, of example_env]
      quit_in_command_states [OF st Message_QUIT_x _ c, of example_env]
    by (simp add: initial_session_def reliable_connection_def)
qed

lemmas session_simps =
  process_message_def is_recognized_def is_helo_msg_def
  is_mail_from_cmd_def is_rcpt_to_cmd_def is_data_cmd_def is_quit_cmd_def has_valid_params_args_def
  send_then_def send_msg_def continue_def goto_def close_and_break_def close_connection_def
  group0_def upto_last_def email_updates EOMD_SEQ_def

lemma example_data_session_run:
  "process_messages example_env (example_transaction @ [''Hello world\<newline>''])
     (initial_session reliable_connection empty_files) = (Continue, example_data_session)"
  by (simp add: example_transaction_def initial_session_def example_data_session_def
      reliable_connection_def parser_simps session_simps)







text \<open>
  The hypothesis on the files is needed: when \<^verbatim>\<open>open\<close> raises for the forward
  file, the end-of-data marker sends no response and the \<^verbatim>\<open>OSError\<close> leaves the
  loop uncaught, the email and the state as they were.
\<close>

lemma open_failure_is_not_caught:
  "process_message example_env EOMD_SEQ
     (example_data_session\<lparr>forward_files := empty_files\<lparr>open_raises := (\<lambda>path. True)\<rparr>\<rparr>) =
     (Raise OSError,
      example_data_session\<lparr>forward_files := empty_files\<lparr>open_raises := (\<lambda>path. True)\<rparr>\<rparr>)"
  by (simp add: process_message_def example_data_session_def empty_files_def
      domain_specific_forward_file_names_def forward_file_name_def group0_def upto_last_def
      set_of_values_def example_env_def append_to_forward_file_def
      forward_file_ready_text_lines_def LF_def)

text \<open>
  Claim C2 against the code.  The description of the state machine in
  \<^verbatim>\<open>server.py\<close> says that it accepts and handles a valid QUIT command in any one
  of its states, and the branches of \<^verbatim>\<open>STATE_0\<close> to \<^verbatim>\<open>STATE_3\<close> do.  The branch
  of \<^verbatim>\<open>STATE_4\<close> does not: after the commands of a transaction up to \<^verbatim>\<open>DATA\<close>
  and one data line, the line \<^verbatim>\<open>QUIT\<close>, which is classified as a well-formed
  QUIT command, does not end the session; the loop goes on in \<^verbatim>\<open>STATE_4\<close>, no
  closing response is sent, the socket stays open, and the line is stored with
  the message lines.  In \<^verbatim>\<open>STATE_3\<close> the same session answers the same line with
  the closing response and leaves the loop.
\<close>

theorem quit_in_data_is_stored_as_text:
  "Message ''QUIT\<newline>'' = Inr \<lparr>msg_type = QUIT, param_arg_error = False\<rparr> \<and>
   process_messages example_env (example_transaction @ [''Hello world\<newline>'', ''QUIT\<newline>''])
     (initial_session reliable_connection empty_files) =
     (Continue,
      \<lparr>state = STATE_4,
         current_email =
           \<lparr>reverse_path = ''<a@x.com>'', forward_paths = [''<b@y.com>''], subject = [],
              message_lines = [''Hello world\<newline>'', ''QUIT\<newline>''], attachment_filename = []\<rparr>,
         connection_socket =
           \<lparr>sent = [HELO_ACK_250_MSG example_env, OK_250_MSG, OK_250_MSG, START_MAIL_354_MSG],
              closed = False, send_raises = (\<lambda>n. False)\<rparr>,
         forward_files = empty_files\<rparr>) \<and>
   process_message example_env ''QUIT\<newline>'' (example_data_session\<lparr>state := STATE_3\<rparr>) =
     (Break,
      example_data_session
        \<lparr>state := STATE_3,
          connection_socket :=
            \<lparr>sent = [HELO_ACK_250_MSG example_env, OK_250_MSG, OK_250_MSG, START_MAIL_354_MSG,
                      CLOS_CON_221_MSG example_env],
               closed = True, send_raises = (\<lambda>n. False)\<rparr>\<rparr>)"
proof -
  have 1: "process_messages example_env (example_transaction @ [''Hello world\<newline>'', ''QUIT\<newline>''])
             (initial_session reliable_connection empty_files) =
           process_message example_env ''QUIT\<newline>'' example_data_session"
    using process_messages_append [of example_env "example_transaction @ [''Hello world\<newline>'']"
        "[''QUIT\<newline>'']" "initial_session reliable_connection empty_files"]
    by (simp add: example_data_session_run split: signal.splits prod.splits)
  have 2: "process_message example_env ''QUIT\<newline>'' example_data_session =
     (Continue,
      \<lparr>state = STATE_4,
         current_email =
           \<lparr>reverse_path = ''<a@x.com>'', forward_paths = [''<b@y.com>''], subject = [],
              message_lines = [''Hello world\<newline>'', ''QUIT\<newline>''], attachment_filename = []\<rparr>,
         connection_socket =
           \<lparr>sent = [HELO_ACK_250_MSG example_env, OK_250_MSG, OK_250_MSG, START_MAIL_354_MSG],
              closed = False, send_raises = (\<lambda>n. False)\<rparr>,
         forward_files = empty_files\<rparr>)"
    by (simp add: process_message_def example_data_session_def EOMD_SEQ_def add_message_line_def
        reliable_connection_def)
  have 3: "process_message example_env ''QUIT\<newline>'' (example_data_session\<lparr>state := STATE_3\<rparr>) =
     (Break,
      example_data_session
        \<lparr>state := STATE_3,
          connection_socket :=
            \<lparr>sent = [HELO_ACK_250_MSG example_env, OK_250_MSG, OK_250_MSG, START_MAIL_354_MSG,
                      CLOS_CON_221_MSG example_env],
               closed = True, send_raises = (\<lambda>n. False)\<rparr>\<rparr>)"
    by (simp add: Message_QUIT process_message_def example_data_session_def
        reliable_connection_def is_recognized_def is_helo_msg_def is_mail_from_cmd_def
        is_rcpt_to_cmd_def is_data_cmd_def is_quit_cmd_def has_valid_params_args_def
        send_then_def send_msg_def close_and_break_def close_connection_def)
  show ?thesis
    using Message_QUIT 1 2 3 by simp
qed

text \<open>
  Claim C4 against the code.  After the transaction from \<^verbatim>\<open><a@x.com>\<close> to
  \<^verbatim>\<open><b@y.com>\<close> with the one data line \<^verbatim>\<open>Hello world\<close>, the forward file of
  \<^verbatim>\<open>y.com\<close> holds that data line and nothing else: neither the reverse path nor
  the forward path was written.
\<close>

theorem forward_file_holds_data_lines_only:
  "contents
     (forward_files
        (snd (process_messages example_env
                [''HELO client.example\<newline>'', ''MAIL FROM:<a@x.com>\<newline>'', ''RCPT TO:<b@y.com>\<newline>'',
                 ''DATA\<newline>'', ''Hello world\<newline>'', ''.\<newline>'']
                (initial_session reliable_connection empty_files))))
     ''forward/y.com'' = ''Hello world\<newline>''"
  by (simp add: initial_session_def reliable_connection_def empty_files_def parser_simps
      session_simps domain_specific_forward_file_names_def forward_file_name_def
      forward_file_ready_text_lines_def set_of_values_def example_env_def
      append_to_forward_file_def)

lemma lines_from_partition: "concat (lines_from cur xs) @ rest_from cur xs = cur @ xs"
  by (induction xs arbitrary: cur) auto

lemma lines_from_terminated:
  "l \<in> set (lines_from cur xs) \<Longrightarrow> LF \<notin> set cur \<Longrightarrow>
     \<exists>body. l = body @ [LF] \<and> LF \<notin> set body"
  by (induction xs arbitrary: cur) (auto split: if_splits)

text \<open>
  Claim C1.  Over the buffer methods taken from the specification, the session
  frames its input by lines, in every state alike: whatever the chunks are that
  \<^verbatim>\<open>recv\<close> returns, the loop handles exactly the complete lines of the buffered
  text followed by the chunks, one line for each pass and in their order, until
  one of them ends the loop; when it then waits for more bytes, every complete
  line has been handled and the buffer holds the unterminated rest.  The complete
  lines and the rest make up the text, every line ends with its one terminator,
  and the rest has none.
\<close>

theorem framing_is_line_by_line:
  "session_loop env s buf (map Chunk chunks) =
     (case process_messages env (complete_lines (buf @ concat chunks)) s of
        (Continue, s') \<Rightarrow> Awaiting s' (unterminated_rest (buf @ concat chunks))
      | (Break, s') \<Rightarrow> Left s'
      | (Raise e, s') \<Rightarrow> leave e s') \<and>
   concat (complete_lines stream) @ unterminated_rest stream = stream \<and>
   LF \<notin> set (unterminated_rest stream) \<and>
   (\<forall>l \<in> set (complete_lines stream). \<exists>body. l = body @ [LF] \<and> LF \<notin> set body)"
  using session_loop_by_lines [of env s buf chunks] lines_from_partition [of "[]" stream]
    unterminated_rest_no_LF [of stream] lines_from_terminated [of _ "[]" stream]
  by (auto simp: complete_lines_def unterminated_rest_def)

theorem framing_is_line_by_line_witness:
  "session_loop example_env (initial_session reliable_connection empty_files) []
     (map Chunk [''HELO client'', ''.example\<newline>MAIL FROM:<a@x.com>\<newline>RCPT'']) =
   Awaiting
     \<lparr>state = STATE_2,
        current_email = Email\<lparr>reverse_path := ''<a@x.com>''\<rparr>,
        connection_socket = reliable_connection\<lparr>sent := [HELO_ACK_250_MSG example_env, OK_250_MSG]\<rparr>,
        forward_files = empty_files\<rparr>
     ''RCPT'' \<and>
   complete_lines ''DATA\<newline>.\<newline>QU'' = [''DATA\<newline>'', ''.\<newline>''] \<and>
   unterminated_rest ''DATA\<newline>.\<newline>QU'' = ''QU'' \<and>
   (\<exists>body. ''DATA\<newline>'' = body @ [LF] \<and> LF \<notin> set body) \<and>
   (\<exists>body. ''.\<newline>'' = body @ [LF] \<and> LF \<notin> set body)"
proof -
  have lines: "complete_lines ''DATA\<newline>.\<newline>QU'' = [''DATA\<newline>'', ''.\<newline>'']"
    by (simp add: complete_lines_def LF_def)
  have rest: "unterminated_rest ''DATA\<newline>.\<newline>QU'' = ''QU''"
    by (simp add: unterminated_rest_def LF_def)
  from framing_is_line_by_line [of example_env "initial_session reliable_connection empty_files" "[]"
      "[''HELO client'', ''.example\<newline>MAIL FROM:<a@x.com>\<newline>RCPT'']" "''DATA\<newline>.\<newline>QU''"]
  have run: "session_loop example_env (initial_session reliable_connection empty_files) []
     (map Chunk [''HELO client'', ''.example\<newline>MAIL FROM:<a@x.com>\<newline>RCPT'']) =
     (case process_messages example_env
             (complete_lines ([] @ concat [''HELO client'', ''.example\<newline>MAIL FROM:<a@x.com>\<newline>RCPT'']))
             (initial_session reliable_connection empty_files) of
        (Continue, s') \<Rightarrow> Awaiting s'
           (unterminated_rest ([] @ concat [''HELO client'', ''.example\<newline>MAIL FROM:<a@x.com>\<newline>RCPT'']))
      | (Break, s') \<Rightarrow> Left s'
      | (Raise e, s') \<Rightarrow> leave e s')"
    and all: "\<forall>l \<in> set (complete_lines ''DATA\<newline>.\<newline>QU''). \<exists>body. l = body @ [LF] \<and> LF \<notin> set body"
    by blast+
  have "session_loop example_env (initial_session reliable_connection empty_files) []
     (map Chunk [''HELO client'', ''.example\<newline>MAIL FROM:<a@x.com>\<newline>RCPT'']) =
   Awaiting
     \<lparr>state = STATE_2,
        current_email = Email\<lparr>reverse_path := ''<a@x.com>''\<rparr>,
        connection_socket = reliable_connection\<lparr>sent := [HELO_ACK_250_MSG example_env, OK_250_MSG]\<rparr>,
        forward_files = empty_files\<rparr>
     ''RCPT''"
    unfolding run
    by (simp add: complete_lines_def unterminated_rest_def initial_session_def
        reliable_connection_def parser_simps session_simps)
  moreover from all have "(\<exists>body. ''DATA\<newline>'' = body @ [LF] \<and> LF \<notin> set body) \<and>
      (\<exists>body. ''.\<newline>'' = body @ [LF] \<and> LF \<notin> set body)"
    unfolding lines by simp
  ultimately show ?thesis using lines rest by (simp only: simp_thms)
qed

section \<open>Properties of the conversation\<close>

subsection \<open>The course of a lock-step exchange\<close>

lemma lock_step_all_match:
  assumes "list_all2 (\<lambda>(msgs, code) r. matches_expected code r) rounds responses"
  shows "lock_step rounds responses =
           (concat (map (\<lambda>((msgs, code), r). map Sent msgs @ [Received r]) (zip rounds responses)),
            None)"
  using assms by (induction rule: list_all2_induct) auto

lemma lock_step_first_mismatch:
  assumes "list_all2 (\<lambda>(msgs, code) r. matches_expected code r) rounds responses"
    and "\<not> matches_expected code r"
  shows "lock_step (rounds @ (msgs, code) # later) (responses @ r # unread) =
           (concat (map (\<lambda>((msgs, code), r). map Sent msgs @ [Received r]) (zip rounds responses))
              @ map Sent msgs @ [Received r, Closed],
            Some (Raised SMTPBreakOfProtocolError))"
  using assms by (induction rule: list_all2_induct) auto

lemma lock_step_waits:
  assumes "list_all2 (\<lambda>(msgs, code) r. matches_expected code r) rounds responses"
  shows "lock_step (rounds @ (msgs, code) # later) responses =
           (concat (map (\<lambda>((msgs, code), r). map Sent msgs @ [Received r]) (zip rounds responses))
              @ map Sent msgs,
            Some Blocked)"
  using assms by (induction rule: list_all2_induct) auto

subsection \<open>\<open>send\<close> is a lock-step exchange\<close>

lemma response_parsers_only:
  assumes "parsing_procedure code = Some parse"
  shows "raises_only_ParsingError parse"
proof -
  have "raises_only_ParsingError (parse_seq [consume_or name (re_lit c), parse_whitespace,
          parse_arbitrary_text, parse_CRLF])" for name c
    by (rule parse_seq_only) (simp add: lexical_only consume_or_only)
  with assms show ?thesis
    by (auto simp: parsing_procedure_def parse_220_resp_code_msg_def parse_221_resp_code_msg_def
        parse_250_resp_code_msg_def parse_354_resp_code_msg_def split: if_splits)
qed

lemma sends_sound:
  assumes "transport_sound sock"
  shows "run_steps (map cli_send_msg msgs @ rest) sock =
           run_steps rest (sock\<lparr>history := history sock @ map Sent msgs\<rparr>)"
  using assms
proof (induction msgs arbitrary: sock)
  case Nil
  then show ?case by simp
next
  case (Cons m msgs)
  let ?sock = "sock\<lparr>history := history sock @ [Sent m]\<rparr>"
  have 1: "cli_send_msg m sock = (None, ?sock)"
    using Cons.prems by (simp add: cli_send_msg_def transport_sound_def)
  have 2: "transport_sound ?sock"
    using Cons.prems by (simp add: transport_sound_def)
  show ?case
    using Cons.IH [OF 2] by (simp add: 1)
qed

lemma receive_sound:
  assumes "transport_sound sock" and "round_ok (msgs, code, sent_type)"
  shows "receive_and_validate code sent_type sock =
     (case incoming sock of
        [] \<Rightarrow> (Some Blocked, sock)
      | r # rest \<Rightarrow>
          (case r of
             Chunk m \<Rightarrow>
               if matches_expected code m then
                 (None, sock\<lparr>incoming := rest, history := history sock @ [Received m]\<rparr>)
               else
                 (Some (Raised SMTPBreakOfProtocolError),
                  sock\<lparr>incoming := rest, history := history sock @ [Received m, Closed]\<rparr>)
           | RecvError \<Rightarrow> (Some (Raised SocketError), sock)))"
proof (cases "incoming sock")
  case Nil
  then show ?thesis by (simp add: receive_and_validate_def)
next
  case (Cons r rest)
  from assms(1) Cons obtain m where r: "r = Chunk m"
    by (cases r) (auto simp: transport_sound_def)
  from assms(2) obtain parse where p: "parsing_procedure code = Some parse"
    and v: "val_error_output_assigned sent_type"
    by (auto simp: round_ok_def)
  show ?thesis
  proof (cases "parse m")
    case (Inr x)
    then show ?thesis
      using Cons r p by (simp add: receive_and_validate_def matches_expected_def)
  next
    case (Inl e)
    with response_parsers_only [OF p] obtain name where "e = ParsingError name"
      by (auto simp: raises_only_ParsingError_def)
    with Inl show ?thesis
      using Cons r p v
      by (simp add: receive_and_validate_def matches_expected_def close_socket_def)
  qed
qed

lemma rounds_sound:
  assumes "transport_sound sock" and "list_all round_ok rounds"
  shows "\<exists>sock'.
           run_steps (concat (map round_steps rounds)) sock =
             (snd (lock_step (map (\<lambda>(msgs, code, sent_type). (msgs, code)) rounds)
                     (chunks_of (incoming sock))), sock')
           \<and> history sock' =
               history sock @
                 fst (lock_step (map (\<lambda>(msgs, code, sent_type). (msgs, code)) rounds)
                        (chunks_of (incoming sock)))"
  using assms
proof (induction rounds arbitrary: sock)
  case Nil
  then show ?case by simp
next
  case (Cons r rounds)
  obtain msgs code sent_type where r: "r = (msgs, code, sent_type)" by (cases r)
  let ?more = "concat (map round_steps rounds)"
  let ?sent = "sock\<lparr>history := history sock @ map Sent msgs\<rparr>"
  have ok: "round_ok (msgs, code, sent_type)" and oks: "list_all round_ok rounds"
    using Cons.prems(2) by (simp_all add: r)
  have sound: "transport_sound ?sent"
    using Cons.prems(1) by (auto simp: transport_sound_def)
  have run: "run_steps (concat (map round_steps (r # rounds))) sock =
          (case receive_and_validate code sent_type ?sent of
             (Some h, sock') \<Rightarrow> (Some h, sock')
           | (None, sock') \<Rightarrow> run_steps ?more sock')"
    using sends_sound [OF Cons.prems(1), of msgs "receive_and_validate code sent_type # ?more"]
    by (simp add: r round_steps_def)
  show ?case
  proof (cases "incoming sock")
    case Nil
    then show ?thesis
      unfolding run receive_sound [OF sound ok] by (simp add: r)
  next
    case (Cons x rest)
    from Cons.prems(1) Cons obtain m where x: "x = Chunk m"
      by (cases x) (auto simp: transport_sound_def)
    show ?thesis
    proof (cases "matches_expected code m")
      case False
      then show ?thesis
        unfolding run receive_sound [OF sound ok] using Cons x by (simp add: r)
    next
      case True
      let ?next = "sock\<lparr>incoming := rest, history := (history sock @ map Sent msgs) @ [Received m]\<rparr>"
      have sound': "transport_sound ?next"
        using \<open>transport_sound sock\<close> Cons by (auto simp: transport_sound_def)
      from Cons.IH [OF sound' oks] obtain sock' where
        1: "run_steps ?more ?next =
              (snd (lock_step (map (\<lambda>(msgs, code, sent_type). (msgs, code)) rounds)
                      (chunks_of rest)), sock')"
        and 2: "history sock' = (history sock @ map Sent msgs @ [Received m]) @
                 fst (lock_step (map (\<lambda>(msgs, code, sent_type). (msgs, code)) rounds)
                        (chunks_of rest))"
        by auto
      show ?thesis
        unfolding run receive_sound [OF sound ok] using Cons x True 1 2
        by (simp add: r split: prod.splits)
    qed
  qed
qed

lemma conversation_rounds:
  assumes "get_SMTP_MIME_message_data_lines env e = (data_lines, None)"
  shows "conversation env e = concat (map round_steps (typed_rounds env e data_lines))"
  by (simp add: conversation_def typed_rounds_def round_steps_def send_generated_def assms
      get_rcpt_to_cmds_def comp_def)

lemma typed_rounds_ok: "list_all round_ok (typed_rounds env e data_lines)"
  by (simp add: typed_rounds_def round_ok_def parsing_procedure_def val_error_output_assigned_def
      list_all_iff get_rcpt_to_cmds_def)

lemma typed_rounds_untyped:
  "map (\<lambda>(msgs, code, sent_type). (msgs, code)) (typed_rounds env e data_lines) =
     rounds_of env e data_lines"
  by (simp add: typed_rounds_def rounds_of_def get_helo_msg_def get_mail_from_cmd_def
      get_rcpt_to_cmds_def get_data_cmd_def get_eomd_seq_def get_quit_cmd_def EOMD_SEQ_def
      comp_def)

text \<open>
  Claim C9.  On a socket where no call raises, and with an attachment that can
  be read, \<^verbatim>\<open>send\<close> is the lock-step exchange of the rounds of the email: what
  it sends and receives, in order, and how it ends are those of the exchange.
  So every message is sent only after the response before it was received and
  matched; and the first response that does not match is followed by closing the
  socket and by \<^verbatim>\<open>SMTPBreakOfProtocolError\<close>, and by nothing else.
\<close>

theorem conversation_is_lock_step:
  assumes "transport_sound sock"
    and "get_SMTP_MIME_message_data_lines env e = (data_lines, None)"
  shows "fst (send env e (Some sock)) =
           snd (lock_step (rounds_of env e data_lines) (chunks_of (incoming sock))) \<and>
         map_option history (snd (send env e (Some sock))) =
           Some (history sock @
                   fst (lock_step (rounds_of env e data_lines) (chunks_of (incoming sock))))"
  using rounds_sound [OF assms(1) typed_rounds_ok, of env e data_lines]
  by (auto simp: send_def conversation_rounds [OF assms(2)] typed_rounds_untyped)

lemma chunks_of_map_Chunk: "chunks_of (map Chunk rs) = rs"
  by (induction rs) auto

lemma example_data_lines:
  "get_SMTP_MIME_message_data_lines example_client_env example_letter =
     ([''From: <a@x.com>\<newline>'', ''To: <b@y.com>, <c@z.org>\<newline>'', ''Subject: hi\<newline>'',
       ''MIME-Version: 1.0\<newline>'', ''Content-Type: multipart/mixed; boundary=98766789\<newline>'',
       ''\<newline>'', ''--98766789\<newline>'', ''Content-Transfer-Encoding: quoted-printable\<newline>'',
       ''Content-Type: text/plain\<newline>'', ''\<newline>'', ''Hello world\<newline>'', ''--98766789\<newline>'',
       ''Content-Transfer-Encoding: base64\<newline>'', ''Content-Type: text/plain\<newline>'', ''\<newline>'',
       ''aGk=\<newline>'', ''--98766789--\<newline>''], None)"
  by (simp add: get_SMTP_MIME_message_data_lines_def example_client_env_def example_letter_def
      LF_def)

lemmas response_simps =
  matches_expected_def parsing_procedure_def parse_220_resp_code_msg_def
  parse_221_resp_code_msg_def parse_250_resp_code_msg_def parse_354_resp_code_msg_def
  consume_or_def consume_def re_lit_def parse_whitespace_eq parse_arbitrary_text_eq parse_CRLF_eq
  is_SP_def SP_def TAB_def LF_def is_text_char_def

theorem conversation_is_lock_step_witness:
  "transport_sound (scripted_socket [''220 mail.example.org\<newline>'', ''250 Hello\<newline>'', ''250 OK\<newline>'',
                                      ''503 Bad sequence of commands\<newline>'', ''250 OK\<newline>'']) \<and>
   fst (send example_client_env example_letter
          (Some (scripted_socket [''220 mail.example.org\<newline>'', ''250 Hello\<newline>'', ''250 OK\<newline>'',
                                  ''503 Bad sequence of commands\<newline>'', ''250 OK\<newline>''])))
     = Some (Raised SMTPBreakOfProtocolError) \<and>
   map_option history
     (snd (send example_client_env example_letter
             (Some (scripted_socket [''220 mail.example.org\<newline>'', ''250 Hello\<newline>'', ''250 OK\<newline>'',
                                     ''503 Bad sequence of commands\<newline>'', ''250 OK\<newline>'']))))
     = Some [Received ''220 mail.example.org\<newline>'', Sent ''HELO client.example\<newline>'',
             Received ''250 Hello\<newline>'', Sent ''MAIL FROM: <a@x.com>\<newline>'',
             Received ''250 OK\<newline>'', Sent ''RCPT TO: <b@y.com>\<newline>'',
             Received ''503 Bad sequence of commands\<newline>'', Closed]"
proof -
  let ?sock = "scripted_socket [''220 mail.example.org\<newline>'', ''250 Hello\<newline>'', ''250 OK\<newline>'',
                                ''503 Bad sequence of commands\<newline>'', ''250 OK\<newline>'']"
  have sound: "transport_sound ?sock"
    by (simp add: transport_sound_def scripted_socket_def)
  have chunks: "chunks_of (incoming ?sock) =
      [''220 mail.example.org\<newline>'', ''250 Hello\<newline>'', ''250 OK\<newline>'',
       ''503 Bad sequence of commands\<newline>'', ''250 OK\<newline>'']"
    by (simp add: scripted_socket_def)
  have h: "history ?sock = []" by (simp add: scripted_socket_def)
  show ?thesis
    using sound conversation_is_lock_step [OF sound example_data_lines]
    unfolding chunks h
    by (simp add: rounds_of_def example_client_env_def example_letter_def response_simps)
qed

end
